theory Spec2Isabelle
  imports Main "HOL-Library.AList"
begin

section \<open>The signalling relay of server.js\<close>

text \<open>
  The server keeps one table, \<open>rooms\<close>, and decorates every WebSocket object with two
  properties, \<open>roomId\<close> and \<open>isHost\<close>. Each handler (\<open>connection\<close>, \<open>message\<close>, \<open>close\<close>)
  runs to completion before the next one starts, so a handler is a function from the
  state before it to the state after it. The state holds the table, the properties of
  every socket, and what the server has done so far, in order: the calls to \<open>send\<close>
  and \<open>close\<close>, and the deletions of rooms.
\<close>

subsection \<open>JavaScript values\<close>

text \<open>
  What \<open>JSON.parse\<close> can return. A number is carried as the text that JavaScript's
  number-to-string conversion gives for it; the server never computes with numbers.
  A value that may be \<open>undefined\<close> is a \<open>json option\<close>, with \<open>None\<close> for \<open>undefined\<close>.
\<close>

datatype json =
    JNull
  | JBool bool
  | JNum string
  | JStr string
  | JArr "json list"
  | JObj "(string \<times> json) list"

type_synonym jsval = "json option"

datatype error = TypeError

text \<open>Truthiness, as \<open>!x\<close> and \<open>x && y\<close> test it.\<close>

fun truthy :: "jsval \<Rightarrow> bool" where
  "truthy None = False"
| "truthy (Some JNull) = False"
| "truthy (Some (JBool b)) = b"
| "truthy (Some (JNum n)) = (n \<noteq> ''0'' \<and> n \<noteq> ''NaN'')"
| "truthy (Some (JStr s)) = (s \<noteq> [])"
| "truthy (Some (JArr xs)) = True"
| "truthy (Some (JObj fs)) = True"

text \<open>
  Conversion to a string, as a computed property access \<open>rooms[x]\<close> applies it to \<open>x\<close>.
  An array is joined with commas, \<open>null\<close> elements giving the empty string; a parsed
  object gives \<open>[object Object]\<close>, unless it has a property \<open>toString\<close> of its own, which
  is no function, and then the conversion raises a TypeError (here \<open>None\<close>).
\<close>

fun ToString :: "json \<Rightarrow> string option"
  and join :: "json list \<Rightarrow> string option" where
  "ToString JNull = Some ''null''"
| "ToString (JBool b) = Some (if b then ''true'' else ''false'')"
| "ToString (JNum n) = Some n"
| "ToString (JStr s) = Some s"
| "ToString (JArr xs) = join xs"
| "ToString (JObj fs) =
     (if ''toString'' \<in> fst ` set fs then None else Some ''[object Object]'')"
| "join [] = Some []"
| "join (x # xs) =
     (case (if x = JNull then Some [] else ToString x) of
        None \<Rightarrow> None
      | Some a \<Rightarrow>
          (case join xs of
             None \<Rightarrow> None
           | Some b \<Rightarrow> Some (if xs = [] then a else a @ '','' @ b)))"

fun ToPropertyKey :: "jsval \<Rightarrow> string option" where
  "ToPropertyKey None = Some ''undefined''"
| "ToPropertyKey (Some v) = ToString v"

text \<open>
  Reading a property of a parsed value, \<open>data.type\<close> and \<open>data.roomId\<close>: a TypeError on
  \<open>null\<close>, the property's value on an object that has it, \<open>undefined\<close> otherwise (no
  prototype of a parsed value has a property of either name).
\<close>

fun get_prop :: "json \<Rightarrow> string \<Rightarrow> error + jsval" where
  "get_prop JNull k = Inl TypeError"
| "get_prop (JObj fs) k = Inr (map_of fs k)"
| "get_prop v k = Inr None"

subsection \<open>Sockets, rooms and the state\<close>

type_synonym conn = nat

datatype readyState = CONNECTING | OPEN | CLOSING | CLOSED

record socket =
  roomId :: jsval
  isHost :: bool
  readyState :: readyState

record room =
  host :: "conn option"
  clients :: "conn list"

text \<open>
  What is passed to \<open>send\<close>: the result of \<open>JSON.stringify\<close> on a value, or the message
  as it was received. \<open>Delete k\<close> stands for the statement \<open>delete rooms[k]\<close>; it is
  recorded with the calls so that its place among them can be stated.
\<close>

datatype frame = JSON_stringify json | Raw string

datatype call = Send conn frame | Close conn | Delete string

record state =
  rooms :: "(string \<times> room) list"
  sockets :: "conn \<Rightarrow> socket"
  calls :: "call list"

text \<open>
  A handler returns, or it raises a TypeError that nothing in server.js catches; in both
  cases the state is the one reached at that point.
\<close>

datatype outcome = Returned state | Threw state

fun state_of :: "outcome \<Rightarrow> state" where
  "state_of (Returned s) = s"
| "state_of (Threw s) = s"

text \<open>
  \<open>rooms\<close> is a plain object literal, so \<open>rooms[k]\<close> also finds what it inherits from
  \<open>Object.prototype\<close>: functions, and for \<open>__proto__\<close> the prototype itself. All of
  them are truthy, and none has a \<open>host\<close> or a \<open>clients\<close> property.
\<close>

definition object_prototype_keys :: "string list" where
  "object_prototype_keys =
     [''constructor'', ''__defineGetter__'', ''__defineSetter__'', ''hasOwnProperty'',
      ''__lookupGetter__'', ''__lookupSetter__'', ''isPrototypeOf'',
      ''propertyIsEnumerable'', ''toString'', ''valueOf'', ''__proto__'',
      ''toLocaleString'']"

datatype lookup = Undefined | Inherited | Own room

definition rooms_get :: "(string \<times> room) list \<Rightarrow> jsval \<Rightarrow> error + lookup" where
  "rooms_get rs x =
     (case ToPropertyKey x of
        None \<Rightarrow> Inl TypeError
      | Some k \<Rightarrow>
          (case map_of rs k of
             Some r \<Rightarrow> Inr (Own r)
           | None \<Rightarrow> if k \<in> set object_prototype_keys then Inr Inherited else Inr Undefined))"

text \<open>
  The transport. \<open>send\<close> is recorded as a call; \<open>close\<close> is recorded too and starts the
  closing handshake, after which the socket is no longer \<open>OPEN\<close>.
\<close>

definition send :: "conn \<Rightarrow> frame \<Rightarrow> state \<Rightarrow> state" where
  "send c f s = s\<lparr>calls := calls s @ [Send c f]\<rparr>"

definition ws_close :: "conn \<Rightarrow> state \<Rightarrow> state" where
  "ws_close c s =
     s\<lparr>sockets := (sockets s)
          (c := (sockets s c)\<lparr>readyState :=
                  (if readyState (sockets s c) = CLOSED then CLOSED else CLOSING)\<rparr>),
       calls := calls s @ [Close c]\<rparr>"

definition is_open :: "state \<Rightarrow> conn \<Rightarrow> bool" where
  "is_open s c = (readyState (sockets s c) = OPEN)"

text \<open>\<open>cs.forEach(c => { if (c.readyState === WebSocket.OPEN) c.send(f) })\<close>\<close>

fun send_each :: "conn list \<Rightarrow> frame \<Rightarrow> state \<Rightarrow> state" where
  "send_each [] f s = s"
| "send_each (c # cs) f s = send_each cs f (if is_open s c then send c f s else s)"

text \<open>\<open>if (room.host && room.host.readyState === WebSocket.OPEN) room.host.send(f)\<close>\<close>

definition send_host :: "room \<Rightarrow> frame \<Rightarrow> state \<Rightarrow> state" where
  "send_host r f s =
     (case host r of
        None \<Rightarrow> s
      | Some h \<Rightarrow> if is_open s h then send h f s else s)"

subsection \<open>The helper functions\<close>

definition digit :: "nat \<Rightarrow> char" where
  "digit d = ''0123456789'' ! d"

fun show_nat :: "nat \<Rightarrow> string" where
  "show_nat n = (if n < 10 then [digit n] else show_nat (n div 10) @ [digit (n mod 10)])"

declare show_nat.simps [simp del]

definition host_entry :: json where
  "host_entry = JObj [(''id'', JStr ''host''), (''name'', JStr ''Host'')]"

definition client_entry :: "nat \<Rightarrow> json" where
  "client_entry i =
     JObj [(''id'', JStr (''client-'' @ show_nat i)),
           (''name'', JStr (''Cliente '' @ show_nat i))]"

definition players :: "room \<Rightarrow> json list" where
  "players r =
     (case host r of None \<Rightarrow> [] | Some h \<Rightarrow> [host_entry])
     @ map client_entry [0..<length (clients r)]"

definition playerList :: "room \<Rightarrow> frame" where
  "playerList r =
     JSON_stringify (JObj [(''type'', JStr ''playerList''), (''players'', JArr (players r))])"

definition broadcastPlayerList :: "jsval \<Rightarrow> state \<Rightarrow> outcome" where
  "broadcastPlayerList rid s =
     (case rooms_get (rooms s) rid of
        Inl e \<Rightarrow> Threw s
      | Inr Undefined \<Rightarrow> Returned s
      | Inr Inherited \<Rightarrow> Threw s
      | Inr (Own r) \<Rightarrow>
          Returned (send_each (clients r) (playerList r) (send_host r (playerList r) s)))"

definition broadcastInRoom :: "jsval \<Rightarrow> json \<Rightarrow> state \<Rightarrow> outcome" where
  "broadcastInRoom rid obj s =
     (case rooms_get (rooms s) rid of
        Inl e \<Rightarrow> Threw s
      | Inr Undefined \<Rightarrow> Returned s
      | Inr Inherited \<Rightarrow> Threw s
      | Inr (Own r) \<Rightarrow>
          Returned (send_each (clients r) (JSON_stringify obj)
                      (send_host r (JSON_stringify obj) s)))"

definition handleWebRTCSignaling :: "conn \<Rightarrow> json \<Rightarrow> state \<Rightarrow> outcome" where
  "handleWebRTCSignaling ws data s =
     (let rid = roomId (sockets s ws) in
      if \<not> truthy rid then Returned s
      else
        (case rooms_get (rooms s) rid of
           Inl e \<Rightarrow> Threw s
         | Inr Undefined \<Rightarrow> Returned s
         | Inr Inherited \<Rightarrow> if isHost (sockets s ws) then Threw s else Returned s
         | Inr (Own r) \<Rightarrow>
             if isHost (sockets s ws)
             then Returned (send_each (clients r) (JSON_stringify data) s)
             else Returned (send_host r (JSON_stringify data) s)))"

subsection \<open>Writing to the table\<close>

text \<open>
  \<open>rooms[x] = r\<close> and \<open>delete rooms[x]\<close>; an assignment to a key that exists keeps the
  key's place. Identifiers come from \<open>uuidv4\<close>, which returns 36 characters of
  hexadecimal digits and dashes, never \<open>__proto__\<close>, the one key whose assignment would
  not create a property.
\<close>

definition rooms_set :: "jsval \<Rightarrow> room \<Rightarrow> state \<Rightarrow> state" where
  "rooms_set x r s =
     (case ToPropertyKey x of
        None \<Rightarrow> s
      | Some k \<Rightarrow> s\<lparr>rooms := AList.update k r (rooms s)\<rparr>)"

definition rooms_delete :: "jsval \<Rightarrow> state \<Rightarrow> state" where
  "rooms_delete x s =
     (case ToPropertyKey x of
        None \<Rightarrow> s
      | Some k \<Rightarrow> s\<lparr>rooms := AList.delete k (rooms s), calls := calls s @ [Delete k]\<rparr>)"

definition bind :: "conn \<Rightarrow> jsval \<Rightarrow> bool \<Rightarrow> state \<Rightarrow> state" where
  \<comment> \<open>\<open>ws.roomId = x; ws.isHost = b\<close>\<close>
  "bind ws x b s = s\<lparr>sockets := (sockets s)(ws := (sockets s ws)\<lparr>roomId := x, isHost := b\<rparr>)\<rparr>"

subsection \<open>The handlers\<close>

definition on_connection :: "conn \<Rightarrow> state \<Rightarrow> state" where
  "on_connection ws s = bind ws (Some JNull) False s"

definition roomCreated :: "string \<Rightarrow> frame" where
  "roomCreated newRoomId =
     JSON_stringify (JObj [(''type'', JStr ''roomCreated''), (''roomId'', JStr newRoomId)])"

definition error_reply :: frame where
  "error_reply =
     JSON_stringify (JObj [(''type'', JStr ''error''), (''message'', JStr ''Sala no existe'')])"

definition roomClosed :: frame where
  "roomClosed = JSON_stringify (JObj [(''type'', JStr ''roomClosed'')])"

text \<open>\<open>case 'createRoom'\<close>; \<open>newRoomId\<close> is what \<open>uuidv4()\<close> returns.\<close>

definition createRoom :: "string \<Rightarrow> conn \<Rightarrow> state \<Rightarrow> outcome" where
  "createRoom newRoomId ws s =
     Returned
       (send ws (roomCreated newRoomId)
          (bind ws (Some (JStr newRoomId)) True
             (rooms_set (Some (JStr newRoomId)) \<lparr>host = Some ws, clients = []\<rparr> s)))"

text \<open>
  \<open>case 'joinRoom'\<close>. An inherited property passes the test \<open>!rooms[roomId]\<close>; the two
  assignments to \<open>ws\<close> then happen, and \<open>rooms[roomId].clients.push\<close> raises.
\<close>

definition joinRoom :: "conn \<Rightarrow> json \<Rightarrow> state \<Rightarrow> outcome" where
  "joinRoom ws data s =
     (case get_prop data ''roomId'' of
        Inl e \<Rightarrow> Threw s
      | Inr rid \<Rightarrow>
          (case rooms_get (rooms s) rid of
             Inl e \<Rightarrow> Threw s
           | Inr Undefined \<Rightarrow> Returned (send ws error_reply s)
           | Inr Inherited \<Rightarrow> Threw (bind ws rid False s)
           | Inr (Own r) \<Rightarrow>
               broadcastPlayerList rid
                 (rooms_set rid (r\<lparr>clients := clients r @ [ws]\<rparr>) (bind ws rid False s))))"

text \<open>
  The test \<open>ws.roomId && rooms[ws.roomId]\<close> of the cases below and of the \<open>close\<close>
  handler: \<open>Inr None\<close> when it is falsy.
\<close>

definition bound_room :: "conn \<Rightarrow> state \<Rightarrow> error + lookup option" where
  "bound_room ws s =
     (if \<not> truthy (roomId (sockets s ws)) then Inr None
      else
        (case rooms_get (rooms s) (roomId (sockets s ws)) of
           Inl e \<Rightarrow> Inl e
         | Inr Undefined \<Rightarrow> Inr None
         | Inr l \<Rightarrow> Inr (Some l)))"

definition startGame :: "conn \<Rightarrow> state \<Rightarrow> outcome" where
  "startGame ws s =
     (if \<not> isHost (sockets s ws) then Returned s
      else
        (case bound_room ws s of
           Inl e \<Rightarrow> Threw s
         | Inr None \<Rightarrow> Returned s
         | Inr (Some l) \<Rightarrow>
             broadcastInRoom (roomId (sockets s ws)) (JObj [(''type'', JStr ''startGame'')]) s))"

definition gameState :: "conn \<Rightarrow> json \<Rightarrow> state \<Rightarrow> outcome" where
  "gameState ws data s =
     (case bound_room ws s of
        Inl e \<Rightarrow> Threw s
      | Inr None \<Rightarrow> Returned s
      | Inr (Some l) \<Rightarrow> broadcastInRoom (roomId (sockets s ws)) data s)"

text \<open>
  \<open>case 'input'\<close>: the received \<open>message\<close> itself goes to the host. An inherited
  property has no \<open>host\<close>, so nothing is sent.
\<close>

definition input :: "conn \<Rightarrow> string \<Rightarrow> state \<Rightarrow> outcome" where
  "input ws message s =
     (if isHost (sockets s ws) then Returned s
      else
        (case bound_room ws s of
           Inl e \<Rightarrow> Threw s
         | Inr None \<Rightarrow> Returned s
         | Inr (Some Undefined) \<Rightarrow> Returned s
         | Inr (Some Inherited) \<Rightarrow> Returned s
         | Inr (Some (Own r)) \<Rightarrow> Returned (send_host r (Raw message) s)))"

text \<open>
  The \<open>message\<close> handler. \<open>parse\<close> is \<open>JSON.parse\<close>, \<open>None\<close> where it raises (the handler
  catches that and returns); \<open>newRoomId\<close> is the identifier \<open>uuidv4\<close> would return.
\<close>

definition on_message ::
  "(string \<Rightarrow> json option) \<Rightarrow> string \<Rightarrow> conn \<Rightarrow> string \<Rightarrow> state \<Rightarrow> outcome" where
  "on_message parse newRoomId ws message s =
     (case parse message of
        None \<Rightarrow> Returned s
      | Some data \<Rightarrow>
          (case get_prop data ''type'' of
             Inl e \<Rightarrow> Threw s
           | Inr t \<Rightarrow>
               if t = Some (JStr ''createRoom'') then createRoom newRoomId ws s
               else if t = Some (JStr ''joinRoom'') then joinRoom ws data s
               else if t = Some (JStr ''startGame'') then startGame ws s
               else if t = Some (JStr ''offer'') \<or> t = Some (JStr ''answer'')
                       \<or> t = Some (JStr ''candidate'')
                 then handleWebRTCSignaling ws data s
               else if t = Some (JStr ''gameState'') then gameState ws data s
               else if t = Some (JStr ''input'') then input ws message s
               else Returned s))"

text \<open>
  The loop of the \<open>close\<close> handler over the clients of the host's room:
  \<open>if (client.readyState === WebSocket.OPEN) { client.send(...); client.close(); }\<close>
\<close>

fun close_each :: "conn list \<Rightarrow> state \<Rightarrow> state" where
  "close_each [] s = s"
| "close_each (c # cs) s =
     close_each cs (if is_open s c then ws_close c (send c roomClosed s) else s)"

definition on_close :: "conn \<Rightarrow> state \<Rightarrow> outcome" where
  "on_close ws s =
     (case bound_room ws s of
        Inl e \<Rightarrow> Threw s
      | Inr None \<Rightarrow> Returned s
      | Inr (Some Undefined) \<Rightarrow> Returned s
      | Inr (Some Inherited) \<Rightarrow> Threw s
      | Inr (Some (Own r)) \<Rightarrow>
          if isHost (sockets s ws)
          then Returned (rooms_delete (roomId (sockets s ws)) (close_each (clients r) s))
          else
            broadcastPlayerList (roomId (sockets s ws))
              (rooms_set (roomId (sockets s ws))
                 (r\<lparr>clients := filter (\<lambda>c. c \<noteq> ws) (clients r)\<rparr>) s))"

subsection \<open>Runs of the server\<close>

text \<open>
  What can happen to the server: a connection arrives, a message arrives, a connection
  closes, and the transport changes the liveness of a socket. A message event carries
  what \<open>JSON.parse\<close> and \<open>uuidv4\<close> do when it is handled, then the socket and the
  received text. The transport is not restricted in how it moves a socket from one
  liveness state to another, and a run goes on after a handler has raised, from the
  state reached at that point; so the runs of the model include those of the server.
\<close>

datatype event =
    Connection conn
  | Message "string \<Rightarrow> json option" string conn string
  | Closed conn
  | Transport conn readyState

definition set_readyState :: "conn \<Rightarrow> readyState \<Rightarrow> state \<Rightarrow> state" where
  "set_readyState c st s = s\<lparr>sockets := (sockets s)(c := (sockets s c)\<lparr>readyState := st\<rparr>)\<rparr>"

fun step :: "event \<Rightarrow> state \<Rightarrow> state" where
  "step (Connection ws) s = on_connection ws s"
| "step (Message parse newRoomId ws message) s = state_of (on_message parse newRoomId ws message s)"
| "step (Closed ws) s = state_of (on_close ws s)"
| "step (Transport c st) s = set_readyState c st s"

fun run :: "event list \<Rightarrow> state \<Rightarrow> state" where
  "run [] s = s"
| "run (e # es) s = run es (step e s)"

definition init :: state where
  "init = \<lparr>rooms = [],
           sockets = (\<lambda>c. \<lparr>roomId = None, isHost = False, readyState = CONNECTING\<rparr>),
           calls = []\<rparr>"

inductive reachable :: "state \<Rightarrow> bool" where
  reachable_init: "reachable init"
| reachable_step: "reachable s \<Longrightarrow> reachable (step e s)"

subsection \<open>Describing what a handler sent\<close>

definition host_list :: "room \<Rightarrow> conn list" where
  "host_list r = (case host r of None \<Rightarrow> [] | Some h \<Rightarrow> [h])"

definition sends :: "frame \<Rightarrow> conn list \<Rightarrow> call list" where
  "sends f cs = map (\<lambda>c. Send c f) cs"

definition farewell :: "conn list \<Rightarrow> call list" where
  "farewell cs = concat (map (\<lambda>c. [Send c roomClosed, Close c]) cs)"

subsection \<open>Membership\<close>

text \<open>
  How often a connection occurs in a room, as its host or in its list of clients, and
  how often in the whole table.
\<close>

definition member_count :: "room \<Rightarrow> conn \<Rightarrow> nat" where
  "member_count r c = (if host r = Some c then 1 else 0) + count_list (clients r) c"

definition memberships :: "(string \<times> room) list \<Rightarrow> conn \<Rightarrow> nat" where
  "memberships rs c = sum_list (map (\<lambda>(k, r). member_count r c) rs)"

definition single_membership :: "state \<Rightarrow> bool" where
  "single_membership s = (\<forall>c. memberships (rooms s) c \<le> 1)"

definition hosted :: "state \<Rightarrow> bool" where
  "hosted s = (\<forall>k r. map_of (rooms s) k = Some r \<longrightarrow> host r \<noteq> None)"

text \<open>
  The two properties the server gives a socket, and the sockets marked as host that are
  not in the list of clients of the room they are bound to.
\<close>

definition binding :: "state \<Rightarrow> conn \<Rightarrow> jsval \<times> bool" where
  "binding s c = (roomId (sockets s c), isHost (sockets s c))"

definition host_apart :: "state \<Rightarrow> bool" where
  "host_apart s =
     (\<forall>ws k r. isHost (sockets s ws) \<and> ToPropertyKey (roomId (sockets s ws)) = Some k
        \<and> map_of (rooms s) k = Some r \<longrightarrow> ws \<notin> set (clients r))"

text \<open>
  The sender of a \<open>createRoom\<close> or \<open>joinRoom\<close> message, and the runs in which every such
  sender is in no room when its message arrives.
\<close>

definition requests_membership :: "event \<Rightarrow> conn option" where
  "requests_membership e =
     (case e of
        Message parse newRoomId ws message \<Rightarrow>
          (case parse message of
             None \<Rightarrow> None
           | Some data \<Rightarrow>
               (case get_prop data ''type'' of
                  Inl x \<Rightarrow> None
                | Inr t \<Rightarrow>
                    if t = Some (JStr ''createRoom'') \<or> t = Some (JStr ''joinRoom'')
                    then Some ws else None))
      | _ \<Rightarrow> None)"

fun unbound_senders :: "event list \<Rightarrow> state \<Rightarrow> bool" where
  "unbound_senders [] s = True"
| "unbound_senders (e # es) s =
     ((case requests_membership e of
         None \<Rightarrow> True
       | Some ws \<Rightarrow> memberships (rooms s) ws = 0)
      \<and> unbound_senders es (step e s))"

subsection \<open>Example runs\<close>

definition room_a :: string where
  "room_a = ''1b9d6bcd-bbfd-4b2d-9b5d-ab8dfbbd4bed''"

definition room_b :: string where
  "room_b = ''6ec0bd7f-11c0-43da-975e-2a8ad9ebae0b''"

definition create_text :: string where
  \<open>create_text = ''{"type":"createRoom"}''\<close>

definition join_a_text :: string where
  \<open>join_a_text = ''{"type":"joinRoom","roomId":"1b9d6bcd-bbfd-4b2d-9b5d-ab8dfbbd4bed"}''\<close>

definition join_b_text :: string where
  \<open>join_b_text = ''{"type":"joinRoom","roomId":"6ec0bd7f-11c0-43da-975e-2a8ad9ebae0b"}''\<close>

definition join_constructor_text :: string where
  \<open>join_constructor_text = ''{"type":"joinRoom","roomId":"constructor"}''\<close>

definition offer_text :: string where
  \<open>offer_text = ''{"type":"offer","sdp":"v=0"}''\<close>

definition gameState_text :: string where
  \<open>gameState_text = ''{"type":"gameState","tick":"7"}''\<close>

definition input_text :: string where
  \<open>input_text = ''{ "type": "input", "dir": "up" }''\<close>

definition join_toString_text :: string where
  \<open>join_toString_text = ''{"type":"joinRoom","roomId":{"toString":1}}''\<close>

definition create_json :: json where
  "create_json = JObj [(''type'', JStr ''createRoom'')]"

definition join_json :: "string \<Rightarrow> json" where
  "join_json k = JObj [(''type'', JStr ''joinRoom''), (''roomId'', JStr k)]"

definition join_toString_json :: json where
  "join_toString_json =
     JObj [(''type'', JStr ''joinRoom''), (''roomId'', JObj [(''toString'', JNum ''1'')])]"

definition offer_json :: json where
  "offer_json = JObj [(''type'', JStr ''offer''), (''sdp'', JStr ''v=0'')]"

definition gameState_json :: json where
  "gameState_json = JObj [(''type'', JStr ''gameState''), (''tick'', JStr ''7'')]"

definition input_json :: json where
  "input_json = JObj [(''type'', JStr ''input''), (''dir'', JStr ''up'')]"

text \<open>\<open>JSON.parse\<close> on the texts above; it is not asked about any other text.\<close>

definition parse_example :: "string \<Rightarrow> json option" where
  "parse_example m =
     (if m = create_text then Some create_json
      else if m = join_a_text then Some (join_json room_a)
      else if m = join_b_text then Some (join_json room_b)
      else if m = join_constructor_text then Some (join_json ''constructor'')
      else if m = offer_text then Some offer_json
      else if m = gameState_text then Some gameState_json
      else if m = input_text then Some input_json
      else if m = join_toString_text then Some join_toString_json
      else None)"

text \<open>
  Connection 0 creates a room, connections 1 and 2 join it, connection 3 has arrived
  and is in no room. In \<open>fading\<close> the peer of connection 2 has started to close, and the
  \<open>close\<close> event of that socket has not been handled yet.
\<close>

definition lobby_events :: "event list" where
  "lobby_events =
     [Connection 0, Transport 0 OPEN, Message parse_example room_a 0 create_text,
      Connection 1, Transport 1 OPEN, Message parse_example room_b 1 join_a_text,
      Connection 2, Transport 2 OPEN, Message parse_example room_b 2 join_a_text,
      Connection 3, Transport 3 OPEN]"

definition lobby :: state where
  "lobby = run lobby_events init"

definition fading :: state where
  "fading = step (Transport 2 CLOSING) lobby"

definition lobby_room :: room where
  "lobby_room = \<lparr>host = Some 0, clients = [1, 2]\<rparr>"

text \<open>
  Connection 1 joins the room of connection 0 twice, and connection 0 then creates a
  second room.
\<close>

definition twice_events :: "event list" where
  "twice_events =
     [Connection 0, Transport 0 OPEN, Message parse_example room_a 0 create_text,
      Connection 1, Transport 1 OPEN, Message parse_example room_b 1 join_a_text,
      Message parse_example room_b 1 join_a_text,
      Message parse_example room_b 0 create_text]"

text \<open>
  Connection 0 creates a room, connection 1 joins it, and connection 0 creates a second
  room.
\<close>

definition second_room_events :: "event list" where
  "second_room_events =
     [Connection 0, Transport 0 OPEN, Message parse_example room_a 0 create_text,
      Connection 1, Transport 1 OPEN, Message parse_example room_b 1 join_a_text,
      Message parse_example room_b 0 create_text]"

definition second_room :: state where
  "second_room = run second_room_events init"

text \<open>
  Connections 0 and 2 create a room each, and connection 1 joins the one and then the
  other.
\<close>

definition two_rooms_events :: "event list" where
  "two_rooms_events =
     [Connection 0, Transport 0 OPEN, Message parse_example room_a 0 create_text,
      Connection 2, Transport 2 OPEN, Message parse_example room_b 2 create_text,
      Connection 1, Transport 1 OPEN, Message parse_example room_a 1 join_a_text,
      Message parse_example room_a 1 join_b_text]"

definition two_rooms :: state where
  "two_rooms = run two_rooms_events init"

text \<open>
  Connections 0 and 2 create a room each, and connection 0 then joins the room of
  connection 2.
\<close>

definition host_joins_events :: "event list" where
  "host_joins_events =
     [Connection 0, Transport 0 OPEN, Message parse_example room_a 0 create_text,
      Connection 2, Transport 2 OPEN, Message parse_example room_b 2 create_text,
      Message parse_example room_a 0 join_b_text]"

definition host_joins :: state where
  "host_joins = run host_joins_events init"

text \<open>The example room when the peer of its host has started to close.\<close>

definition host_fading :: state where
  "host_fading = step (Transport 0 CLOSING) lobby"

subsection \<open>Creating a room\<close>

text \<open>The identifier and the sender of a \<open>createRoom\<close> message.\<close>

definition room_creation :: "event \<Rightarrow> (string \<times> conn) option" where
  "room_creation e =
     (case e of
        Message parse newRoomId ws message \<Rightarrow>
          (case parse message of
             None \<Rightarrow> None
           | Some data \<Rightarrow>
               if get_prop data ''type'' = Inr (Some (JStr ''createRoom''))
               then Some (newRoomId, ws) else None)
      | _ \<Rightarrow> None)"

section \<open>What the loops send\<close>

lemma is_open_send: "is_open (send c f s) = is_open s"
  by (simp add: is_open_def send_def fun_eq_iff)

lemma send_each_eq:
  "send_each cs f s = s\<lparr>calls := calls s @ sends f (filter (is_open s) cs)\<rparr>"
proof (induction cs arbitrary: s)
  case Nil
  show ?case by (simp add: sends_def)
next
  case (Cons c cs)
  show ?case
    by (simp add: Cons.IH is_open_send sends_def) (simp add: send_def)
qed

lemma send_host_eq:
  "send_host r f s = s\<lparr>calls := calls s @ sends f (filter (is_open s) (host_list r))\<rparr>"
  by (simp add: send_host_def host_list_def sends_def send_def split: option.split)

lemma is_open_calls: "is_open (s\<lparr>calls := cs\<rparr>) = is_open s"
  by (simp add: is_open_def fun_eq_iff)

lemma broadcast_eq:
  "send_each cs f (send_host r f s) =
     s\<lparr>calls := calls s @ sends f (filter (is_open s) (host_list r @ cs))\<rparr>"
  by (simp add: send_each_eq send_host_eq is_open_calls sends_def)

lemma is_open_ws_close:
  "is_open (ws_close c (send c f s)) c' = (is_open s c' \<and> c' \<noteq> c)"
  by (auto simp add: is_open_def ws_close_def send_def)

lemma calls_ws_close: "calls (ws_close c (send c f s)) = calls s @ [Send c f, Close c]"
  by (simp add: ws_close_def send_def)

text \<open>
  The loop of the \<open>close\<close> handler serves every open client once: after its \<open>close\<close>
  a socket is not open, so a second entry of the same client is passed over.
\<close>

lemma close_each_calls:
  "\<exists>cs'. distinct cs' \<and> set cs' = {c \<in> set cs. is_open s c}
         \<and> calls (close_each cs s) = calls s @ farewell cs'"
proof (induction cs arbitrary: s)
  case Nil
  show ?case by (simp add: farewell_def)
next
  case (Cons c cs)
  show ?case
  proof (cases "is_open s c")
    case False
    from Cons.IH [of s] obtain cs' where
      "distinct cs'" "set cs' = {c \<in> set cs. is_open s c}"
      "calls (close_each cs s) = calls s @ farewell cs'" by blast
    with False show ?thesis by auto
  next
    case True
    let ?s1 = "ws_close c (send c roomClosed s)"
    from Cons.IH [of ?s1] obtain cs' where d: "distinct cs'"
      and m: "set cs' = {c' \<in> set cs. is_open ?s1 c'}"
      and c: "calls (close_each cs ?s1) = calls ?s1 @ farewell cs'" by blast
    from d m have "distinct (c # cs')" by (simp add: is_open_ws_close)
    moreover from m True have "set (c # cs') = {c' \<in> set (c # cs). is_open s c'}"
      by (auto simp add: is_open_ws_close)
    moreover from c True have "calls (close_each (c # cs) s) = calls s @ farewell (c # cs')"
      by (simp add: calls_ws_close farewell_def)
    ultimately show ?thesis by blast
  qed
qed

lemma count_sends: "count_list (sends f cs) (Send c f) = count_list cs c"
  by (induction cs) (simp_all add: sends_def)

lemma count_filter: "count_list (filter P cs) c = (if P c then count_list cs c else 0)"
  by (induction cs) simp_all

lemma count_members: "count_list (host_list r) c + count_list (clients r) c = member_count r c"
  by (simp add: host_list_def member_count_def split: option.split)

lemma farewell_eq:
  "farewell cs =
     concat (map (\<lambda>c. [Send c (JSON_stringify (JObj [(''type'', JStr ''roomClosed'')])), Close c]) cs)"
  by (simp add: farewell_def roomClosed_def)

lemma playerList_eq:
  "playerList r = JSON_stringify (JObj [(''type'', JStr ''playerList''),
     (''players'', JArr
        (map (\<lambda>h. JObj [(''id'', JStr ''host''), (''name'', JStr ''Host'')])
           (case host r of None \<Rightarrow> [] | Some h \<Rightarrow> [h])
         @ map (\<lambda>i. JObj [(''id'', JStr (''client-'' @ show_nat i)),
                          (''name'', JStr (''Cliente '' @ show_nat i))])
             [0..<length (clients r)]))])"
  by (simp add: playerList_def players_def host_entry_def client_entry_def split: option.split)

lemma playerList_hosted:
  "host r = Some h \<Longrightarrow>
   playerList r = JSON_stringify (JObj [(''type'', JStr ''playerList''),
     (''players'', JArr (JObj [(''id'', JStr ''host''), (''name'', JStr ''Host'')]
        # map client_entry [0..<length (clients r)]))])"
  by (simp add: playerList_def players_def host_entry_def)

lemma send_host_hosted:
  "host r = Some h \<Longrightarrow>
   send_host r f s =
     (if readyState (sockets s h) = OPEN then s\<lparr>calls := calls s @ [Send h f]\<rparr> else s)"
  by (simp add: send_host_def send_def is_open_def)

section \<open>Looking a room up\<close>

lemma rooms_get_key:
  "ToPropertyKey x = Some k \<Longrightarrow> map_of rs k = Some r \<Longrightarrow> rooms_get rs x = Inr (Own r)"
  by (simp add: rooms_get_def)

lemma bound_room_key:
  "truthy (roomId (sockets s ws)) \<Longrightarrow> ToPropertyKey (roomId (sockets s ws)) = Some k
   \<Longrightarrow> map_of (rooms s) k = Some r \<Longrightarrow> bound_room ws s = Inr (Some (Own r))"
  by (simp add: bound_room_def rooms_get_def)

lemma rooms_get_Own:
  "map_of rs rid = Some r \<Longrightarrow> rooms_get rs (Some (JStr rid)) = Inr (Own r)"
  by (simp add: rooms_get_def)

lemma bound_room_Own:
  "roomId (sockets s ws) = Some (JStr rid) \<Longrightarrow> rid \<noteq> [] \<Longrightarrow> map_of (rooms s) rid = Some r
   \<Longrightarrow> bound_room ws s = Inr (Some (Own r))"
  by (simp add: bound_room_def rooms_get_def)

lemma joinRoom_Undefined:
  assumes "parse message = Some data"
    and "get_prop data ''type'' = Inr (Some (JStr ''joinRoom''))"
    and "get_prop data ''roomId'' = Inr rid"
    and "ToPropertyKey rid = Some k"
    and "map_of (rooms s) k = None"
    and "k \<notin> set object_prototype_keys"
  shows "on_message parse newRoomId ws message s =
           Returned (s\<lparr>calls := calls s @ [Send ws error_reply]\<rparr>)"
  using assms
  by (simp add: on_message_def joinRoom_def rooms_get_def send_def)

section \<open>What a handler does to the table\<close>

lemma rooms_send_each: "rooms (send_each cs f s) = rooms s"
  by (simp add: send_each_eq)

lemma rooms_send_host: "rooms (send_host r f s) = rooms s"
  by (simp add: send_host_eq)

lemma rooms_broadcastPlayerList: "rooms (state_of (broadcastPlayerList rid s)) = rooms s"
  by (simp add: broadcastPlayerList_def rooms_send_each rooms_send_host
      split: sum.split lookup.split)

lemma rooms_broadcastInRoom: "rooms (state_of (broadcastInRoom rid obj s)) = rooms s"
  by (simp add: broadcastInRoom_def rooms_send_each rooms_send_host
      split: sum.split lookup.split)

lemma rooms_handleWebRTCSignaling: "rooms (state_of (handleWebRTCSignaling ws data s)) = rooms s"
  by (simp add: handleWebRTCSignaling_def Let_def rooms_send_each rooms_send_host
      split: sum.split lookup.split)

lemma rooms_startGame: "rooms (state_of (startGame ws s)) = rooms s"
  by (simp add: startGame_def rooms_broadcastInRoom split: sum.split option.split)

lemma rooms_gameState: "rooms (state_of (gameState ws data s)) = rooms s"
  by (simp add: gameState_def rooms_broadcastInRoom split: sum.split option.split)

lemma rooms_input: "rooms (state_of (input ws message s)) = rooms s"
  by (simp add: input_def rooms_send_host split: sum.split option.split lookup.split)

lemma rooms_close_each: "rooms (close_each cs s) = rooms s"
  by (induction cs arbitrary: s) (simp_all add: ws_close_def send_def)

lemma rooms_createRoom:
  "rooms (state_of (createRoom newRoomId ws s)) =
     AList.update newRoomId \<lparr>host = Some ws, clients = []\<rparr> (rooms s)"
  by (simp add: createRoom_def send_def bind_def rooms_set_def)

lemma rooms_joinRoom:
  "rooms (state_of (joinRoom ws data s)) = rooms s \<or>
   (\<exists>k r. map_of (rooms s) k = Some r \<and>
      rooms (state_of (joinRoom ws data s)) =
        AList.update k (r\<lparr>clients := clients r @ [ws]\<rparr>) (rooms s))"
  by (auto simp add: joinRoom_def rooms_get_def rooms_broadcastPlayerList rooms_set_def
        bind_def send_def
      split: sum.split lookup.split option.splits if_splits)

lemma rooms_on_close:
  "rooms (state_of (on_close ws s)) = rooms s \<or>
   (\<exists>k. rooms (state_of (on_close ws s)) = AList.delete k (rooms s)) \<or>
   (\<exists>k r. map_of (rooms s) k = Some r \<and>
      rooms (state_of (on_close ws s)) =
        AList.update k (r\<lparr>clients := filter (\<lambda>c. c \<noteq> ws) (clients r)\<rparr>) (rooms s))"
  by (auto simp add: on_close_def bound_room_def rooms_get_def rooms_broadcastPlayerList
        rooms_set_def rooms_delete_def rooms_close_each
      split: sum.split lookup.split option.splits if_splits)

lemma rooms_on_message:
  "rooms (state_of (on_message parse u ws m s)) = rooms s \<or>
   rooms (state_of (on_message parse u ws m s)) =
     AList.update u \<lparr>host = Some ws, clients = []\<rparr> (rooms s) \<or>
   (\<exists>k r. map_of (rooms s) k = Some r \<and>
      rooms (state_of (on_message parse u ws m s)) =
        AList.update k (r\<lparr>clients := clients r @ [ws]\<rparr>) (rooms s))"
proof (cases "parse m")
  case None
  then show ?thesis by (simp add: on_message_def)
next
  case (Some data)
  show ?thesis
  proof (cases "get_prop data ''type''")
    case (Inl e)
    with Some show ?thesis by (simp add: on_message_def)
  next
    case (Inr t)
    with Some rooms_joinRoom [of ws data s] show ?thesis
      by (auto simp add: on_message_def rooms_createRoom rooms_startGame
          rooms_handleWebRTCSignaling rooms_gameState rooms_input)
  qed
qed

lemma rooms_other_message:
  assumes "requests_membership (Message parse u ws m) = None"
  shows "rooms (state_of (on_message parse u ws m s)) = rooms s"
proof (cases "parse m")
  case None
  then show ?thesis by (simp add: on_message_def)
next
  case (Some data)
  show ?thesis
  proof (cases "get_prop data ''type''")
    case (Inl e)
    with Some show ?thesis by (simp add: on_message_def)
  next
    case (Inr t)
    with Some assms show ?thesis
      by (auto simp add: on_message_def requests_membership_def rooms_startGame
          rooms_handleWebRTCSignaling rooms_gameState rooms_input split: if_splits)
  qed
qed

lemma rooms_not_creation:
  assumes "room_creation (Message parse u ws m) = None"
  shows "rooms (state_of (on_message parse u ws m s)) = rooms s \<or>
   (\<exists>k r. map_of (rooms s) k = Some r \<and>
      rooms (state_of (on_message parse u ws m s)) =
        AList.update k (r\<lparr>clients := clients r @ [ws]\<rparr>) (rooms s))"
proof (cases "parse m")
  case None
  then show ?thesis by (simp add: on_message_def)
next
  case (Some data)
  show ?thesis
  proof (cases "get_prop data ''type''")
    case (Inl e)
    with Some show ?thesis by (simp add: on_message_def)
  next
    case (Inr t)
    with Some assms have "t \<noteq> Some (JStr ''createRoom'')"
      by (auto simp add: room_creation_def)
    with Some Inr rooms_joinRoom [of ws data s] show ?thesis
      by (auto simp add: on_message_def rooms_startGame
          rooms_handleWebRTCSignaling rooms_gameState rooms_input)
  qed
qed

lemma rooms_creation:
  assumes "room_creation (Message parse u ws m) = Some (u', c)"
  shows "u' = u \<and> c = ws \<and> rooms (state_of (on_message parse u ws m s)) =
     AList.update u \<lparr>host = Some ws, clients = []\<rparr> (rooms s)"
  using assms
  by (auto simp add: room_creation_def on_message_def rooms_createRoom
      split: option.splits if_splits)

section \<open>Invariants of the table\<close>

lemma hosted_step: "hosted s \<Longrightarrow> hosted (step e s)"
proof (cases e)
  case (Connection ws)
  assume "hosted s"
  with Connection show ?thesis by (simp add: hosted_def on_connection_def bind_def)
next
  case (Message parse u ws m)
  assume h: "hosted s"
  from rooms_on_message [of parse u ws m s] h Message show ?thesis
    by (auto simp add: hosted_def update_conv' split: if_splits)
next
  case (Closed ws)
  assume h: "hosted s"
  from rooms_on_close [of ws s] h Closed show ?thesis
    by (auto simp add: hosted_def update_conv' delete_conv' split: if_splits)
next
  case (Transport c st)
  assume "hosted s"
  with Transport show ?thesis by (simp add: hosted_def set_readyState_def)
qed

lemma hosted_reachable: "reachable s \<Longrightarrow> hosted s"
proof (induction rule: reachable.induct)
  case reachable_init
  show ?case by (simp add: hosted_def init_def)
next
  case (reachable_step s e)
  then show ?case by (simp add: hosted_step)
qed

lemma reachable_run: "reachable s \<Longrightarrow> reachable (run es s)"
  by (induction es arbitrary: s) (simp_all add: reachable_step)

lemma memberships_update_le:
  "memberships (AList.update k r rs) c \<le> memberships rs c + member_count r c"
  by (induction rs) (auto simp add: memberships_def)

lemma memberships_update_Some:
  "map_of rs k = Some r0 \<Longrightarrow>
   memberships (AList.update k r rs) c + member_count r0 c = memberships rs c + member_count r c"
  by (induction rs) (auto simp add: memberships_def)

lemma memberships_delete_le: "memberships (AList.delete k rs) c \<le> memberships rs c"
  by (induction rs) (auto simp add: memberships_def)

lemma count_filter_le: "count_list (filter P xs) c \<le> count_list xs c"
  by (induction xs) simp_all

lemma requests_membership_sender:
  "requests_membership (Message parse u ws m) = Some c \<Longrightarrow> c = ws"
  by (auto simp add: requests_membership_def split: option.splits sum.splits if_splits)

lemma memberships_on_close:
  "memberships (rooms (state_of (on_close ws s))) c \<le> memberships (rooms s) c"
proof -
  let ?rs' = "rooms (state_of (on_close ws s))"
  from rooms_on_close [of ws s] consider
      (same) "?rs' = rooms s"
    | (del) k where "?rs' = AList.delete k (rooms s)"
    | (upd) k r where "map_of (rooms s) k = Some r"
        "?rs' = AList.update k (r\<lparr>clients := filter (\<lambda>c. c \<noteq> ws) (clients r)\<rparr>) (rooms s)"
    by blast
  then show ?thesis
  proof cases
    case same
    then show ?thesis by simp
  next
    case del
    then show ?thesis by (simp add: memberships_delete_le)
  next
    case upd
    have "member_count (r\<lparr>clients := filter (\<lambda>c. c \<noteq> ws) (clients r)\<rparr>) c \<le> member_count r c"
      by (simp add: member_count_def count_filter_le)
    with memberships_update_Some
      [OF upd(1), of "r\<lparr>clients := filter (\<lambda>c. c \<noteq> ws) (clients r)\<rparr>" c] upd(2)
    show ?thesis by simp
  qed
qed

lemma memberships_on_message:
  assumes le: "memberships (rooms s) c \<le> 1"
    and free: "memberships (rooms s) ws = 0"
  shows "memberships (rooms (state_of (on_message parse u ws m s))) c \<le> 1"
proof -
  let ?rs' = "rooms (state_of (on_message parse u ws m s))"
  from rooms_on_message [of parse u ws m s] consider
      (same) "?rs' = rooms s"
    | (new) "?rs' = AList.update u \<lparr>host = Some ws, clients = []\<rparr> (rooms s)"
    | (join) k r where "map_of (rooms s) k = Some r"
        "?rs' = AList.update k (r\<lparr>clients := clients r @ [ws]\<rparr>) (rooms s)"
    by blast
  then show ?thesis
  proof cases
    case same
    with le show ?thesis by simp
  next
    case new
    from memberships_update_le [of u "\<lparr>host = Some ws, clients = []\<rparr>" "rooms s" c] new le free
    show ?thesis by (cases "c = ws") (simp_all add: member_count_def)
  next
    case join
    from memberships_update_Some [OF join(1), of "r\<lparr>clients := clients r @ [ws]\<rparr>" c]
      join(2) le free
    show ?thesis by (cases "c = ws") (simp_all add: member_count_def)
  qed
qed

lemma single_membership_step:
  assumes inv: "single_membership s"
    and ok: "case requests_membership e of
               None \<Rightarrow> True
             | Some ws \<Rightarrow> memberships (rooms s) ws = 0"
  shows "single_membership (step e s)"
proof (cases e)
  case (Connection ws)
  with inv show ?thesis by (simp add: single_membership_def on_connection_def bind_def)
next
  case (Transport c st)
  with inv show ?thesis by (simp add: single_membership_def set_readyState_def)
next
  case (Closed ws)
  with inv memberships_on_close [of ws s] show ?thesis
    by (auto simp add: single_membership_def intro: order_trans)
next
  case (Message parse u ws m)
  show ?thesis
  proof (cases "requests_membership e")
    case None
    with Message inv rooms_other_message [of parse u ws m s] show ?thesis
      by (simp add: single_membership_def)
  next
    case (Some c)
    with Message have "c = ws" by (simp add: requests_membership_sender)
    with ok Some have free: "memberships (rooms s) ws = 0" by simp
    have "memberships (rooms (state_of (on_message parse u ws m s))) c' \<le> 1" for c'
    proof (rule memberships_on_message [OF _ free])
      from inv show "memberships (rooms s) c' \<le> 1" by (simp add: single_membership_def)
    qed
    with Message show ?thesis by (simp add: single_membership_def)
  qed
qed

lemma single_membership_run:
  "single_membership s \<Longrightarrow> unbound_senders es s \<Longrightarrow> single_membership (run es s)"
proof (induction es arbitrary: s)
  case Nil
  then show ?case by simp
next
  case (Cons e es)
  from Cons.prems have "single_membership (step e s)"
    by (simp add: single_membership_step)
  with Cons show ?case by simp
qed

text \<open>
  A socket marked as host was bound by \<open>createRoom\<close> to a room with no clients; a
  socket that joins a room is no longer marked as host.
\<close>

lemma binding_close_each: "binding (close_each cs s) = binding s"
proof (induction cs arbitrary: s)
  case Nil
  show ?case by simp
next
  case (Cons c cs)
  have "binding (ws_close c (send c roomClosed s)) = binding s"
    by (simp add: binding_def ws_close_def send_def fun_eq_iff)
  with Cons show ?case by simp
qed

lemma host_apart_cong:
  "binding s' = binding s \<Longrightarrow> rooms s' = rooms s \<Longrightarrow> host_apart s \<Longrightarrow> host_apart s'"
  by (simp add: host_apart_def binding_def fun_eq_iff)

lemma binding_calls: "binding (s\<lparr>calls := cs\<rparr>) = binding s"
  by (simp add: binding_def fun_eq_iff)

lemma binding_broadcastPlayerList: "binding (state_of (broadcastPlayerList rid s)) = binding s"
  by (simp add: broadcastPlayerList_def broadcast_eq binding_calls split: sum.split lookup.split)

lemma binding_broadcastInRoom: "binding (state_of (broadcastInRoom rid obj s)) = binding s"
  by (simp add: broadcastInRoom_def broadcast_eq binding_calls split: sum.split lookup.split)

lemma binding_handleWebRTCSignaling: "binding (state_of (handleWebRTCSignaling ws data s)) = binding s"
  by (simp add: handleWebRTCSignaling_def Let_def send_each_eq send_host_eq binding_calls
      split: sum.split lookup.split)

lemma binding_startGame: "binding (state_of (startGame ws s)) = binding s"
  by (simp add: startGame_def binding_broadcastInRoom split: sum.split option.split)

lemma binding_gameState: "binding (state_of (gameState ws data s)) = binding s"
  by (simp add: gameState_def binding_broadcastInRoom split: sum.split option.split)

lemma binding_input: "binding (state_of (input ws message s)) = binding s"
  by (simp add: input_def send_host_eq binding_calls split: sum.split option.split lookup.split)

lemma host_apart_createRoom: "host_apart s \<Longrightarrow> host_apart (state_of (createRoom u ws s))"
  by (auto simp add: host_apart_def createRoom_def send_def bind_def rooms_set_def update_conv'
      split: if_splits)

lemma host_apart_joinRoom: "host_apart s \<Longrightarrow> host_apart (state_of (joinRoom ws data s))"
proof -
  assume h: "host_apart s"
  show ?thesis
  proof (cases "get_prop data ''roomId''")
    case (Inl e)
    with h show ?thesis by (simp add: joinRoom_def)
  next
    case (Inr rid)
    show ?thesis
    proof (cases "rooms_get (rooms s) rid")
      case (Inl e)
      with Inr h show ?thesis by (simp add: joinRoom_def)
    next
      case look: (Inr l)
      show ?thesis
      proof (cases l)
        case Undefined
        with Inr look h show ?thesis
          by (simp add: joinRoom_def send_def host_apart_def)
      next
        case Inherited
        with Inr look h show ?thesis
          by (auto simp add: joinRoom_def bind_def host_apart_def split: if_splits)
      next
        case (Own r)
        let ?s1 = "rooms_set rid (r\<lparr>clients := clients r @ [ws]\<rparr>) (bind ws rid False s)"
        from Own look obtain k where k: "ToPropertyKey rid = Some k" "map_of (rooms s) k = Some r"
          by (auto simp add: rooms_get_def split: option.splits if_splits)
        with h have "host_apart ?s1"
          by (auto simp add: host_apart_def rooms_set_def bind_def update_conv' split: if_splits)
        then have "host_apart (state_of (broadcastPlayerList rid ?s1))"
          by (rule host_apart_cong [rotated 2])
            (simp_all add: binding_broadcastPlayerList rooms_broadcastPlayerList)
        with Inr look Own show ?thesis by (simp add: joinRoom_def)
      qed
    qed
  qed
qed

lemma host_apart_on_message:
  "host_apart s \<Longrightarrow> host_apart (state_of (on_message parse u ws m s))"
proof -
  assume h: "host_apart s"
  show ?thesis
  proof (cases "parse m")
    case None
    with h show ?thesis by (simp add: on_message_def)
  next
    case (Some data)
    show ?thesis
    proof (cases "get_prop data ''type''")
      case (Inl e)
      with Some h show ?thesis by (simp add: on_message_def)
    next
      case (Inr t)
      have a: "host_apart (state_of (startGame ws s))"
        using h by (rule host_apart_cong [rotated 2]) (simp_all add: binding_startGame rooms_startGame)
      have b: "host_apart (state_of (handleWebRTCSignaling ws data s))"
        using h by (rule host_apart_cong [rotated 2])
          (simp_all add: binding_handleWebRTCSignaling rooms_handleWebRTCSignaling)
      have c: "host_apart (state_of (gameState ws data s))"
        using h by (rule host_apart_cong [rotated 2]) (simp_all add: binding_gameState rooms_gameState)
      have d: "host_apart (state_of (input ws m s))"
        using h by (rule host_apart_cong [rotated 2]) (simp_all add: binding_input rooms_input)
      from Some Inr h a b c d show ?thesis
        by (simp add: on_message_def host_apart_createRoom host_apart_joinRoom)
    qed
  qed
qed

lemma host_apart_on_close: "host_apart s \<Longrightarrow> host_apart (state_of (on_close ws s))"
proof -
  assume h: "host_apart s"
  show ?thesis
  proof (cases "bound_room ws s")
    case (Inl e)
    with h show ?thesis by (simp add: on_close_def)
  next
    case (Inr lo)
    show ?thesis
    proof (cases lo)
      case None
      with Inr h show ?thesis by (simp add: on_close_def)
    next
      case (Some l)
      show ?thesis
      proof (cases l)
        case Undefined
        with Inr Some h show ?thesis by (simp add: on_close_def)
      next
        case Inherited
        with Inr Some h show ?thesis by (simp add: on_close_def)
      next
        case (Own r)
        let ?rid = "roomId (sockets s ws)"
        from Own Some Inr obtain k where k: "ToPropertyKey ?rid = Some k" "map_of (rooms s) k = Some r"
          by (auto simp add: bound_room_def rooms_get_def split: option.splits if_splits sum.splits lookup.splits)
        show ?thesis
        proof (cases "isHost (sockets s ws)")
          case True
          have "binding (rooms_delete ?rid (close_each (clients r) s)) = binding s"
            using binding_close_each [of "clients r" s]
            by (simp add: rooms_delete_def binding_def fun_eq_iff split: option.split)
          then have "host_apart (rooms_delete ?rid (close_each (clients r) s))"
            using h k
            by (auto simp add: host_apart_def binding_def fun_eq_iff rooms_delete_def
                rooms_close_each delete_conv' split: if_splits)
          with Inr Some Own True show ?thesis by (simp add: on_close_def)
        next
          case False
          let ?s1 = "rooms_set ?rid (r\<lparr>clients := filter (\<lambda>c. c \<noteq> ws) (clients r)\<rparr>) s"
          from h k have "host_apart ?s1"
            by (auto simp add: host_apart_def rooms_set_def update_conv' split: if_splits)
          then have "host_apart (state_of (broadcastPlayerList ?rid ?s1))"
            by (rule host_apart_cong [rotated 2])
              (simp_all add: binding_broadcastPlayerList rooms_broadcastPlayerList)
          with Inr Some Own False show ?thesis by (simp add: on_close_def)
        qed
      qed
    qed
  qed
qed

lemma host_apart_step: "host_apart s \<Longrightarrow> host_apart (step e s)"
proof (cases e)
  case (Connection ws)
  assume "host_apart s"
  with Connection show ?thesis
    by (auto simp add: host_apart_def on_connection_def bind_def split: if_splits)
next
  case (Message parse u ws m)
  assume "host_apart s"
  with Message show ?thesis by (simp add: host_apart_on_message)
next
  case (Closed ws)
  assume "host_apart s"
  with Closed show ?thesis by (simp add: host_apart_on_close)
next
  case (Transport c st)
  assume "host_apart s"
  with Transport show ?thesis
    by (auto simp add: host_apart_def set_readyState_def split: if_splits)
qed

lemma host_apart_reachable: "reachable s \<Longrightarrow> host_apart s"
proof (induction rule: reachable.induct)
  case reachable_init
  show ?case by (simp add: host_apart_def init_def)
next
  case (reachable_step s e)
  then show ?case by (simp add: host_apart_step)
qed

text \<open>Who is the host of a room after an event, and what the departure of a host deletes.\<close>

lemma host_after_step:
  assumes "map_of (rooms s) k = Some r" and "map_of (rooms (step e s)) k = Some r'"
  shows "host r' = (case room_creation e of
                      None \<Rightarrow> host r
                    | Some (u, c) \<Rightarrow> if u = k then Some c else host r)"
proof (cases e)
  case (Connection ws)
  with assms show ?thesis by (simp add: on_connection_def bind_def room_creation_def)
next
  case (Message parse u ws m)
  show ?thesis
  proof (cases "room_creation e")
    case None
    with Message rooms_not_creation [of parse u ws m s] assms show ?thesis
      by (auto simp add: update_conv' split: if_splits)
  next
    case (Some p)
    obtain u' c where p: "p = (u', c)" by (cases p)
    with Some Message rooms_creation [of parse u ws m u' c s] assms show ?thesis
      by (auto simp add: update_conv' split: if_splits)
  qed
next
  case (Closed ws)
  with rooms_on_close [of ws s] assms show ?thesis
    by (auto simp add: update_conv' delete_conv' room_creation_def split: if_splits)
next
  case (Transport c st)
  with assms show ?thesis by (simp add: set_readyState_def room_creation_def)
qed

lemma rooms_host_close:
  assumes "isHost (sockets s ws)" and "truthy (roomId (sockets s ws))"
    and "ToPropertyKey (roomId (sockets s ws)) = Some k" and "map_of (rooms s) k = Some r"
  shows "rooms (step (Closed ws) s) = AList.delete k (rooms s)"
  using assms by (simp add: on_close_def bound_room_key rooms_delete_def rooms_close_each)

section \<open>The example runs, evaluated\<close>

lemmas texts = create_text_def join_a_text_def join_b_text_def join_constructor_text_def
  offer_text_def gameState_text_def input_text_def join_toString_text_def

lemma parse_example_simps:
  "parse_example create_text = Some create_json"
  "parse_example join_a_text = Some (join_json room_a)"
  "parse_example join_b_text = Some (join_json room_b)"
  "parse_example join_constructor_text = Some (join_json ''constructor'')"
  "parse_example offer_text = Some offer_json"
  "parse_example gameState_text = Some gameState_json"
  "parse_example input_text = Some input_json"
  "parse_example join_toString_text = Some join_toString_json"
  by (simp_all add: parse_example_def texts)

lemma type_simps:
  "get_prop create_json ''type'' = Inr (Some (JStr ''createRoom''))"
  "get_prop (join_json k) ''type'' = Inr (Some (JStr ''joinRoom''))"
  "get_prop (join_json k) ''roomId'' = Inr (Some (JStr k))"
  "get_prop offer_json ''type'' = Inr (Some (JStr ''offer''))"
  "get_prop gameState_json ''type'' = Inr (Some (JStr ''gameState''))"
  "get_prop input_json ''type'' = Inr (Some (JStr ''input''))"
  "get_prop join_toString_json ''type'' = Inr (Some (JStr ''joinRoom''))"
  "get_prop join_toString_json ''roomId'' = Inr (Some (JObj [(''toString'', JNum ''1'')]))"
  by (simp_all add: create_json_def join_json_def offer_json_def gameState_json_def input_json_def
      join_toString_json_def)

lemma room_keys:
  "room_a \<noteq> []" "room_a \<notin> set object_prototype_keys"
  "room_b \<noteq> []" "room_b \<notin> set object_prototype_keys" "room_a \<noteq> room_b" "room_b \<noteq> room_a"
  "room_a \<noteq> ''constructor''" "''constructor'' \<noteq> room_a"
  "''constructor'' \<in> set object_prototype_keys"
  by (simp_all add: room_a_def room_b_def object_prototype_keys_def)

lemmas handler_defs = init_def on_connection_def on_message_def bind_def set_readyState_def
  createRoom_def joinRoom_def rooms_set_def rooms_get_def broadcastPlayerList_def broadcast_eq
  is_open_def send_def

lemma lobby_rooms: "rooms lobby = [(room_a, lobby_room)]"
  by (simp add: lobby_def lobby_events_def lobby_room_def handler_defs parse_example_simps
      type_simps room_keys)

lemma lobby_sockets:
  "sockets lobby 0 = \<lparr>roomId = Some (JStr room_a), isHost = True, readyState = OPEN\<rparr>"
  "sockets lobby (Suc 0) = \<lparr>roomId = Some (JStr room_a), isHost = False, readyState = OPEN\<rparr>"
  "sockets lobby 2 = \<lparr>roomId = Some (JStr room_a), isHost = False, readyState = OPEN\<rparr>"
  "sockets lobby 3 = \<lparr>roomId = Some JNull, isHost = False, readyState = OPEN\<rparr>"
  by (simp_all add: lobby_def lobby_events_def handler_defs parse_example_simps
      type_simps room_keys)

lemma fading_rooms: "rooms fading = [(room_a, lobby_room)]"
  by (simp add: fading_def set_readyState_def lobby_rooms)

lemma fading_sockets:
  "sockets fading 0 = \<lparr>roomId = Some (JStr room_a), isHost = True, readyState = OPEN\<rparr>"
  "sockets fading (Suc 0) = \<lparr>roomId = Some (JStr room_a), isHost = False, readyState = OPEN\<rparr>"
  "sockets fading 2 = \<lparr>roomId = Some (JStr room_a), isHost = False, readyState = CLOSING\<rparr>"
  "sockets fading 3 = \<lparr>roomId = Some JNull, isHost = False, readyState = OPEN\<rparr>"
  by (simp_all add: fading_def set_readyState_def lobby_sockets)

lemma fading_calls: "calls fading = calls lobby"
  by (simp add: fading_def set_readyState_def)

lemma reachable_lobby: "reachable lobby"
  unfolding lobby_def by (rule reachable_run) (rule reachable_init)

lemma reachable_fading: "reachable fading"
  unfolding fading_def by (rule reachable_step) (rule reachable_lobby)

lemma unbound_lobby: "unbound_senders lobby_events init"
  by (simp add: lobby_events_def requests_membership_def memberships_def member_count_def
      handler_defs parse_example_simps type_simps room_keys)

lemma twice_rooms:
  "rooms (run twice_events init) =
     [(room_a, \<lparr>host = Some 0, clients = [1, 1]\<rparr>), (room_b, \<lparr>host = Some 0, clients = []\<rparr>)]"
  by (simp add: twice_events_def handler_defs parse_example_simps type_simps room_keys)

lemma second_room_rooms:
  "rooms second_room =
     [(room_a, \<lparr>host = Some 0, clients = [1]\<rparr>), (room_b, \<lparr>host = Some 0, clients = []\<rparr>)]"
  by (simp add: second_room_def second_room_events_def handler_defs parse_example_simps
      type_simps room_keys)

lemma second_room_sockets:
  "sockets second_room 0 = \<lparr>roomId = Some (JStr room_b), isHost = True, readyState = OPEN\<rparr>"
  "sockets second_room (Suc 0) =
     \<lparr>roomId = Some (JStr room_a), isHost = False, readyState = OPEN\<rparr>"
  by (simp_all add: second_room_def second_room_events_def handler_defs parse_example_simps
      type_simps room_keys)

lemma reachable_second_room: "reachable second_room"
  unfolding second_room_def by (rule reachable_run) (rule reachable_init)

lemma two_rooms_rooms:
  "rooms two_rooms =
     [(room_a, \<lparr>host = Some 0, clients = [1]\<rparr>), (room_b, \<lparr>host = Some 2, clients = [1]\<rparr>)]"
  by (simp add: two_rooms_def two_rooms_events_def handler_defs parse_example_simps
      type_simps room_keys)

lemma two_rooms_sockets:
  "sockets two_rooms 0 = \<lparr>roomId = Some (JStr room_a), isHost = True, readyState = OPEN\<rparr>"
  "sockets two_rooms (Suc 0) = \<lparr>roomId = Some (JStr room_b), isHost = False, readyState = OPEN\<rparr>"
  "sockets two_rooms 2 = \<lparr>roomId = Some (JStr room_b), isHost = True, readyState = OPEN\<rparr>"
  by (simp_all add: two_rooms_def two_rooms_events_def handler_defs parse_example_simps
      type_simps room_keys)

lemma reachable_two_rooms: "reachable two_rooms"
  unfolding two_rooms_def by (rule reachable_run) (rule reachable_init)

lemma host_joins_rooms:
  "rooms host_joins =
     [(room_a, \<lparr>host = Some 0, clients = []\<rparr>), (room_b, \<lparr>host = Some 2, clients = [0]\<rparr>)]"
  by (simp add: host_joins_def host_joins_events_def handler_defs parse_example_simps
      type_simps room_keys)

lemma host_joins_sockets:
  "sockets host_joins 0 = \<lparr>roomId = Some (JStr room_b), isHost = False, readyState = OPEN\<rparr>"
  "sockets host_joins 2 = \<lparr>roomId = Some (JStr room_b), isHost = True, readyState = OPEN\<rparr>"
  by (simp_all add: host_joins_def host_joins_events_def handler_defs parse_example_simps
      type_simps room_keys)

lemma reachable_host_joins: "reachable host_joins"
  unfolding host_joins_def by (rule reachable_run) (rule reachable_init)

lemma host_fading_rooms: "rooms host_fading = [(room_a, lobby_room)]"
  by (simp add: host_fading_def set_readyState_def lobby_rooms)

lemma host_fading_sockets:
  "sockets host_fading 0 = \<lparr>roomId = Some (JStr room_a), isHost = True, readyState = CLOSING\<rparr>"
  "sockets host_fading (Suc 0) =
     \<lparr>roomId = Some (JStr room_a), isHost = False, readyState = OPEN\<rparr>"
  by (simp_all add: host_fading_def set_readyState_def lobby_sockets)

lemma reachable_host_fading: "reachable host_fading"
  unfolding host_fading_def by (rule reachable_step) (rule reachable_lobby)

section \<open>Membership of connections\<close>

text \<open>
  Claim C1, as amended. Take any run of connection, message, close and liveness events
  from the empty table in which every \<open>createRoom\<close> and every \<open>joinRoom\<close> message comes
  from a connection that is in no room when the message arrives. In the state the run
  reaches, every connection occurs at most once in the table: as the host of one room
  or as one entry of one list of clients, never both, never in two rooms and never
  twice in one list. The handlers do not test that condition themselves: neither
  \<open>case 'createRoom'\<close> nor \<open>case 'joinRoom'\<close> looks at \<open>ws.roomId\<close> or at the table
  before adding the sender, so the claim as it is stated, for every sender, fails.
\<close>

theorem one_room_per_connection:
  assumes "unbound_senders es init"
  shows "memberships (rooms (run es init)) c \<le> 1"
proof -
  have "single_membership init"
    by (simp add: single_membership_def init_def memberships_def)
  from this assms have "single_membership (run es init)"
    by (rule single_membership_run)
  then show ?thesis by (simp add: single_membership_def)
qed

theorem one_room_per_connection_witness:
  "unbound_senders lobby_events init \<and> memberships (rooms (run lobby_events init)) 1 \<le> 1"
  using one_room_per_connection [of lobby_events 1] unbound_lobby by simp

text \<open>
  Connection 1 sends \<open>joinRoom\<close> for the same room twice and is twice in its list of
  clients; connection 0 sends \<open>createRoom\<close> twice and is the host of two rooms.
\<close>

theorem one_room_per_connection_counterexample:
  "reachable (run twice_events init)
   \<and> rooms (run twice_events init) =
       [(room_a, \<lparr>host = Some 0, clients = [1, 1]\<rparr>), (room_b, \<lparr>host = Some 0, clients = []\<rparr>)]
   \<and> memberships (rooms (run twice_events init)) 0 = 2
   \<and> memberships (rooms (run twice_events init)) 1 = 2"
  by (simp add: reachable_run reachable_init twice_rooms memberships_def member_count_def)

section \<open>The host leaves\<close>

text \<open>
  Claim C2, as amended. Let the socket that closes be marked as host and bound to a
  room of the table, that is, let its \<open>roomId\<close> be truthy and convert to the key of a
  room. The \<open>close\<close> handler returns. It sends \<open>{type: 'roomClosed'}\<close> to every client of
  that room that is open at that moment and closes it, each such client once and each
  \<open>send\<close> directly followed by the \<open>close\<close> of the same client; only after all of them
  does it delete the room, and it does nothing else. Afterwards the table has no room
  under that key, and, the key not being a name that the table inherits from
  \<open>Object.prototype\<close>, a \<open>joinRoom\<close> whose \<open>roomId\<close> converts to that key, from any
  connection, is answered with the error reply and changes nothing else.

  Two things the claim says do not hold. A client that is not open is passed over by
  the test \<open>client.readyState === WebSocket.OPEN\<close>: it gets no message and is not
  closed. And the handler closes the room the socket is bound to, no other: a room that
  has the socket as its host, but to which the socket is no longer bound because it has
  sent \<open>createRoom\<close> or \<open>joinRoom\<close> again, stays in the table, and its clients are told
  nothing.
\<close>

theorem host_departure:
  assumes "isHost (sockets s ws)"
    and "truthy (roomId (sockets s ws))"
    and "ToPropertyKey (roomId (sockets s ws)) = Some k"
    and "map_of (rooms s) k = Some r"
    and "k \<notin> set object_prototype_keys"
    and "parse message = Some data"
    and "get_prop data ''type'' = Inr (Some (JStr ''joinRoom''))"
    and "get_prop data ''roomId'' = Inr rid"
    and "ToPropertyKey rid = Some k"
  shows "\<exists>s' cs. on_close ws s = Returned s'
           \<and> distinct cs \<and> set cs = {c \<in> set (clients r). is_open s c}
           \<and> calls s' = calls s
                @ concat (map (\<lambda>c. [Send c (JSON_stringify (JObj [(''type'', JStr ''roomClosed'')])),
                                      Close c]) cs)
                @ [Delete k]
           \<and> rooms s' = AList.delete k (rooms s)
           \<and> map_of (rooms s') k = None
           \<and> on_message parse newRoomId ws' message s' =
               Returned (s'\<lparr>calls := calls s' @
                 [Send ws' (JSON_stringify
                    (JObj [(''type'', JStr ''error''), (''message'', JStr ''Sala no existe'')]))]\<rparr>)"
proof -
  let ?s' = "rooms_delete (roomId (sockets s ws)) (close_each (clients r) s)"
  from assms(1-4) have ret: "on_close ws s = Returned ?s'"
    by (simp add: on_close_def bound_room_key)
  from close_each_calls [of "clients r" s] obtain cs where cs: "distinct cs"
    "set cs = {c \<in> set (clients r). is_open s c}"
    "calls (close_each (clients r) s) = calls s @ farewell cs" by blast
  from assms(3) have rs: "rooms ?s' = AList.delete k (rooms s)"
    by (simp add: rooms_delete_def rooms_close_each)
  then have gone: "map_of (rooms ?s') k = None" by (simp add: delete_conv')
  from assms(6-9) gone assms(5)
  have "on_message parse newRoomId ws' message ?s' =
          Returned (?s'\<lparr>calls := calls ?s' @ [Send ws' error_reply]\<rparr>)"
    by (rule joinRoom_Undefined)
  then have j: "on_message parse newRoomId ws' message ?s' =
      Returned (?s'\<lparr>calls := calls ?s' @
        [Send ws' (JSON_stringify
           (JObj [(''type'', JStr ''error''), (''message'', JStr ''Sala no existe'')]))]\<rparr>)"
    by (simp add: error_reply_def)
  from cs(3) assms(3) have c: "calls ?s' = calls s
      @ concat (map (\<lambda>c. [Send c (JSON_stringify (JObj [(''type'', JStr ''roomClosed'')])), Close c]) cs)
      @ [Delete k]"
    by (simp add: rooms_delete_def farewell_eq)
  from ret cs(1,2) c rs gone j show ?thesis by blast
qed

theorem host_departure_witness:
  "isHost (sockets lobby 0) \<and> truthy (roomId (sockets lobby 0))
   \<and> ToPropertyKey (roomId (sockets lobby 0)) = Some room_a
   \<and> map_of (rooms lobby) room_a = Some lobby_room
   \<and> room_a \<notin> set object_prototype_keys
   \<and> parse_example join_a_text = Some (join_json room_a)
   \<and> get_prop (join_json room_a) ''type'' = Inr (Some (JStr ''joinRoom''))
   \<and> get_prop (join_json room_a) ''roomId'' = Inr (Some (JStr room_a))
   \<and> ToPropertyKey (Some (JStr room_a)) = Some room_a
   \<and> (\<exists>s' cs. on_close 0 lobby = Returned s'
           \<and> distinct cs \<and> set cs = {c \<in> set (clients lobby_room). is_open lobby c}
           \<and> calls s' = calls lobby
                @ concat (map (\<lambda>c. [Send c (JSON_stringify (JObj [(''type'', JStr ''roomClosed'')])),
                                      Close c]) cs)
                @ [Delete room_a]
           \<and> rooms s' = AList.delete room_a (rooms lobby)
           \<and> map_of (rooms s') room_a = None
           \<and> on_message parse_example room_b 3 join_a_text s' =
               Returned (s'\<lparr>calls := calls s' @
                 [Send 3 (JSON_stringify
                    (JObj [(''type'', JStr ''error''), (''message'', JStr ''Sala no existe'')]))]\<rparr>))"
proof -
  have h: "isHost (sockets lobby 0)" "truthy (roomId (sockets lobby 0))"
    "ToPropertyKey (roomId (sockets lobby 0)) = Some room_a"
    "map_of (rooms lobby) room_a = Some lobby_room"
    "room_a \<notin> set object_prototype_keys"
    "parse_example join_a_text = Some (join_json room_a)"
    "get_prop (join_json room_a) ''type'' = Inr (Some (JStr ''joinRoom''))"
    "get_prop (join_json room_a) ''roomId'' = Inr (Some (JStr room_a))"
    "ToPropertyKey (Some (JStr room_a)) = Some room_a"
    by (simp_all add: lobby_sockets lobby_rooms room_keys parse_example_simps type_simps)
  from host_departure [where s = lobby and ws = 0 and k = room_a and r = lobby_room
      and parse = parse_example and message = join_a_text and data = "join_json room_a"
      and rid = "Some (JStr room_a)" and newRoomId = room_b and ws' = 3, OF h] h
  show ?thesis by blast
qed

text \<open>
  The host of the example room leaves while client 2 is closing: client 1 is told and
  closed, client 2, still in the list, gets nothing. And connection 0, host of two
  rooms, leaves: the second room is deleted, the first stays with its client, who is
  open and is told nothing.
\<close>

theorem host_departure_counterexample:
  "reachable fading
   \<and> map_of (rooms fading) room_a = Some \<lparr>host = Some 0, clients = [1, 2]\<rparr>
   \<and> isHost (sockets fading 0) \<and> roomId (sockets fading 0) = Some (JStr room_a)
   \<and> readyState (sockets fading 2) = CLOSING
   \<and> on_close 0 fading =
       Returned (fading\<lparr>rooms := [],
         sockets := (sockets fading)
           (1 := \<lparr>roomId = Some (JStr room_a), isHost = False, readyState = CLOSING\<rparr>),
         calls := calls fading @
           [Send 1 (JSON_stringify (JObj [(''type'', JStr ''roomClosed'')])), Close 1,
            Delete room_a]\<rparr>)
   \<and> reachable second_room
   \<and> map_of (rooms second_room) room_a = Some \<lparr>host = Some 0, clients = [1]\<rparr>
   \<and> readyState (sockets second_room 1) = OPEN
   \<and> on_close 0 second_room =
       Returned (second_room\<lparr>rooms := [(room_a, \<lparr>host = Some 0, clients = [1]\<rparr>)],
         calls := calls second_room @ [Delete room_b]\<rparr>)"
  by (simp add: reachable_fading fading_rooms fading_sockets lobby_room_def on_close_def
      bound_room_def rooms_get_def room_keys rooms_delete_def is_open_def ws_close_def send_def
      roomClosed_def reachable_second_room second_room_rooms second_room_sockets)

section \<open>Joining a room that is not there\<close>

text \<open>
  Claim C3, as amended. Let a \<open>joinRoom\<close> message carry a \<open>roomId\<close> that converts to a
  property key, as every string, number, boolean, \<open>null\<close> and absent \<open>roomId\<close> does, and
  let that key be neither a key of the table nor the name of a property that the table
  inherits from \<open>Object.prototype\<close>. Then the handler returns, the sender is sent one
  reply, namely \<open>{type: 'error', message: 'Sala no existe'}\<close>, nothing is sent to any
  other connection, and the table and the bindings of all sockets are as before. The
  text of the reply is the one in the source, not the one the claim quotes.

  Left out of the amended claim are the two cases in which the handler raises and sends
  no reply, although the table has no such room: an inherited name such as
  \<open>constructor\<close>, for which the test \<open>!rooms[roomId]\<close> does not fire, and a \<open>roomId\<close>
  whose conversion to a property key raises, such as an object with a property
  \<open>toString\<close> of its own.
\<close>

theorem joinRoom_missing:
  assumes "parse message = Some data"
    and "get_prop data ''type'' = Inr (Some (JStr ''joinRoom''))"
    and "get_prop data ''roomId'' = Inr rid"
    and "ToPropertyKey rid = Some k"
    and "map_of (rooms s) k = None"
    and "k \<notin> set object_prototype_keys"
  shows "on_message parse newRoomId ws message s =
           Returned (s\<lparr>calls := calls s @
             [Send ws (JSON_stringify
                (JObj [(''type'', JStr ''error''), (''message'', JStr ''Sala no existe'')]))]\<rparr>)"
proof -
  from assms have "on_message parse newRoomId ws message s =
      Returned (s\<lparr>calls := calls s @ [Send ws error_reply]\<rparr>)"
    by (rule joinRoom_Undefined)
  then show ?thesis by (simp add: error_reply_def)
qed

theorem joinRoom_missing_witness:
  "parse_example join_b_text = Some (join_json room_b)
   \<and> get_prop (join_json room_b) ''type'' = Inr (Some (JStr ''joinRoom''))
   \<and> get_prop (join_json room_b) ''roomId'' = Inr (Some (JStr room_b))
   \<and> ToPropertyKey (Some (JStr room_b)) = Some room_b
   \<and> map_of (rooms lobby) room_b = None
   \<and> room_b \<notin> set object_prototype_keys
   \<and> on_message parse_example room_b 3 join_b_text lobby =
         Returned (lobby\<lparr>calls := calls lobby @
           [Send 3 (JSON_stringify
              (JObj [(''type'', JStr ''error''), (''message'', JStr ''Sala no existe'')]))]\<rparr>)"
proof -
  have h: "parse_example join_b_text = Some (join_json room_b)"
    "get_prop (join_json room_b) ''type'' = Inr (Some (JStr ''joinRoom''))"
    "get_prop (join_json room_b) ''roomId'' = Inr (Some (JStr room_b))"
    "ToPropertyKey (Some (JStr room_b)) = Some room_b"
    "map_of (rooms lobby) room_b = None"
    "room_b \<notin> set object_prototype_keys"
    by (simp_all add: parse_example_simps type_simps lobby_rooms room_keys)
  from joinRoom_missing [where parse = parse_example and message = join_b_text
      and data = "join_json room_b" and rid = "Some (JStr room_b)" and k = room_b
      and s = lobby and newRoomId = room_b and ws = 3, OF h] h
  show ?thesis by blast
qed

text \<open>
  Connection 3 asks for a room that does not exist and gets the reply with the Spanish
  text. It asks for \<open>constructor\<close>, which is no room of the table either, and gets no
  reply, is bound to \<open>constructor\<close>, and the handler raises. It asks for the object
  \<open>{toString: 1}\<close>, and the handler raises at once.
\<close>

theorem joinRoom_missing_counterexample:
  "map_of (rooms lobby) room_b = None
   \<and> on_message parse_example room_b 3 join_b_text lobby =
       Returned (lobby\<lparr>calls := calls lobby @
         [Send 3 (JSON_stringify
            (JObj [(''type'', JStr ''error''), (''message'', JStr ''Sala no existe'')]))]\<rparr>)
   \<and> ''Sala no existe'' \<noteq> ''room does not exist''
   \<and> map_of (rooms lobby) ''constructor'' = None
   \<and> roomId (sockets lobby 3) = Some JNull
   \<and> on_message parse_example room_b 3 join_constructor_text lobby =
       Threw (lobby\<lparr>sockets := (sockets lobby)
         (3 := \<lparr>roomId = Some (JStr ''constructor''), isHost = False, readyState = OPEN\<rparr>)\<rparr>)
   \<and> parse_example join_toString_text =
       Some (JObj [(''type'', JStr ''joinRoom''), (''roomId'', JObj [(''toString'', JNum ''1'')])])
   \<and> on_message parse_example room_b 3 join_toString_text lobby = Threw lobby"
  by (simp add: on_message_def joinRoom_def rooms_get_def parse_example_simps type_simps
      lobby_rooms lobby_sockets room_keys send_def error_reply_def bind_def
      join_toString_json_def)

section \<open>Relaying offer, answer and candidate\<close>

text \<open>
  Claim C4, as amended. In a reachable state, let a message of type \<open>offer\<close>, \<open>answer\<close>
  or \<open>candidate\<close> come from a socket bound to a room of the table. The handler returns
  and changes nothing but the calls. If the sender is marked as host, the parsed
  message, serialised again and otherwise unmodified, is sent to every entry of the
  room's list of clients that is open, in list order, and to nobody else; the host is
  not in that list, so the message does not come back to it. If the sender is not
  marked as host, the message is sent to the room's host if the host is open, and to no
  client. A recipient that is not open is passed over by the test
  \<open>readyState === WebSocket.OPEN\<close>, so the claim as it is stated, for every client,
  fails.
\<close>

theorem signalling_relay:
  assumes "reachable s"
    and "parse message = Some data"
    and "get_prop data ''type'' = Inr (Some (JStr t))"
    and "t \<in> {''offer'', ''answer'', ''candidate''}"
    and "roomId (sockets s ws) = Some (JStr rid)" and "rid \<noteq> []"
    and "map_of (rooms s) rid = Some r"
  shows "on_message parse newRoomId ws message s =
           Returned (s\<lparr>calls := calls s @
              sends (JSON_stringify data)
                (filter (is_open s) (if isHost (sockets s ws) then clients r else host_list r))\<rparr>)
         \<and> ws \<notin> set (if isHost (sockets s ws) then clients r else [])"
proof -
  from assms(1) have "host_apart s" by (rule host_apart_reachable)
  with assms(5,7) have "ws \<notin> set (if isHost (sockets s ws) then clients r else [])"
    by (auto simp add: host_apart_def)
  moreover from assms(2-7) have "on_message parse newRoomId ws message s =
           Returned (s\<lparr>calls := calls s @
              sends (JSON_stringify data)
                (filter (is_open s) (if isHost (sockets s ws) then clients r else host_list r))\<rparr>)"
    by (auto simp add: on_message_def handleWebRTCSignaling_def rooms_get_Own send_host_eq
        send_each_eq)
  ultimately show ?thesis by simp
qed

theorem signalling_relay_witness:
  "reachable lobby
   \<and> parse_example offer_text = Some offer_json
   \<and> get_prop offer_json ''type'' = Inr (Some (JStr ''offer''))
   \<and> ''offer'' \<in> {''offer'', ''answer'', ''candidate''}
   \<and> roomId (sockets lobby 0) = Some (JStr room_a) \<and> room_a \<noteq> []
   \<and> map_of (rooms lobby) room_a = Some lobby_room
   \<and> on_message parse_example room_b 0 offer_text lobby =
         Returned (lobby\<lparr>calls := calls lobby @
            sends (JSON_stringify offer_json)
              (filter (is_open lobby)
                 (if isHost (sockets lobby 0) then clients lobby_room else host_list lobby_room))\<rparr>)
   \<and> 0 \<notin> set (if isHost (sockets lobby 0) then clients lobby_room else [])"
proof -
  have h: "reachable lobby" "parse_example offer_text = Some offer_json"
    "get_prop offer_json ''type'' = Inr (Some (JStr ''offer''))"
    "''offer'' \<in> {''offer'', ''answer'', ''candidate''}"
    "roomId (sockets lobby 0) = Some (JStr room_a)" "room_a \<noteq> []"
    "map_of (rooms lobby) room_a = Some lobby_room"
    by (simp_all add: reachable_lobby parse_example_simps type_simps lobby_rooms lobby_sockets
        room_keys)
  from signalling_relay [where parse = parse_example and message = offer_text
      and data = offer_json and t = "''offer''" and s = lobby and ws = 0 and rid = room_a
      and r = lobby_room and newRoomId = room_b] h
  show ?thesis by blast
qed

text \<open>
  The host of the example room sends an offer while client 2 is closing: only client 1
  is sent the offer.
\<close>

theorem signalling_relay_counterexample:
  "reachable fading
   \<and> map_of (rooms fading) room_a = Some \<lparr>host = Some 0, clients = [1, 2]\<rparr>
   \<and> isHost (sockets fading 0) \<and> roomId (sockets fading 0) = Some (JStr room_a)
   \<and> readyState (sockets fading 2) = CLOSING
   \<and> on_message parse_example room_b 0 offer_text fading =
       Returned (fading\<lparr>calls := calls fading @ [Send 1 (JSON_stringify offer_json)]\<rparr>)"
  by (simp add: reachable_fading on_message_def handleWebRTCSignaling_def rooms_get_def
      parse_example_simps
      type_simps fading_rooms fading_sockets lobby_room_def room_keys send_each_eq sends_def
      is_open_def)

section \<open>Input from a client\<close>

text \<open>
  Claim C5, as amended. Let a message of type \<open>input\<close> come from a socket that is not
  marked as host and is bound to a room of the table, that is, let its \<open>roomId\<close> be
  truthy and convert to the key of a room. The handler returns and changes nothing but
  the calls. If the host of that room is open, the handler makes one call: it sends the
  received message itself, not a serialisation of the parsed value, to that host. If
  the host is not open, it makes no call. Nothing is sent to a client in either case.

  Two things the claim says do not hold. With a host that is not open, the test
  \<open>room.host.readyState === WebSocket.OPEN\<close> keeps the input from being delivered. And
  the host that is sent the input is the host of the room the sender is bound to: a
  socket in the lists of two rooms reaches the host of the room it joined last, not the
  host of the other.
\<close>

theorem input_forwarded_raw:
  assumes "parse message = Some data"
    and "get_prop data ''type'' = Inr (Some (JStr ''input''))"
    and "\<not> isHost (sockets s ws)"
    and "truthy (roomId (sockets s ws))"
    and "ToPropertyKey (roomId (sockets s ws)) = Some k"
    and "map_of (rooms s) k = Some r"
  shows "on_message parse newRoomId ws message s =
           Returned (s\<lparr>calls := calls s @
             (case host r of
                None \<Rightarrow> []
              | Some h \<Rightarrow> if readyState (sockets s h) = OPEN then [Send h (Raw message)] else [])\<rparr>)"
  using assms
  by (simp add: on_message_def input_def bound_room_key send_host_def send_def is_open_def
      split: option.split)

theorem input_forwarded_raw_witness:
  "parse_example input_text = Some input_json
   \<and> get_prop input_json ''type'' = Inr (Some (JStr ''input''))
   \<and> \<not> isHost (sockets lobby 1)
   \<and> truthy (roomId (sockets lobby 1))
   \<and> ToPropertyKey (roomId (sockets lobby 1)) = Some room_a
   \<and> map_of (rooms lobby) room_a = Some lobby_room
   \<and> on_message parse_example room_b 1 input_text lobby =
         Returned (lobby\<lparr>calls := calls lobby @ [Send 0 (Raw input_text)]\<rparr>)"
proof -
  have h: "parse_example input_text = Some input_json"
    "get_prop input_json ''type'' = Inr (Some (JStr ''input''))"
    "\<not> isHost (sockets lobby 1)"
    "truthy (roomId (sockets lobby 1))"
    "ToPropertyKey (roomId (sockets lobby 1)) = Some room_a"
    "map_of (rooms lobby) room_a = Some lobby_room"
    by (simp_all add: parse_example_simps type_simps lobby_rooms lobby_sockets room_keys)
  from input_forwarded_raw [where parse = parse_example and message = input_text
      and data = input_json and s = lobby and ws = 1 and k = room_a
      and r = lobby_room and newRoomId = room_b, OF h] h
  show ?thesis by (simp add: lobby_room_def lobby_sockets)
qed

text \<open>
  Client 1 of the example room sends input while the host is closing: nothing is sent.
  And connection 1, a client of the rooms of connections 0 and 2, sends input: it goes
  to connection 2, and connection 0, open, gets nothing.
\<close>

theorem input_forwarded_raw_counterexample:
  "reachable host_fading
   \<and> map_of (rooms host_fading) room_a = Some \<lparr>host = Some 0, clients = [1, 2]\<rparr>
   \<and> sockets host_fading 1 = \<lparr>roomId = Some (JStr room_a), isHost = False, readyState = OPEN\<rparr>
   \<and> readyState (sockets host_fading 0) = CLOSING
   \<and> on_message parse_example room_b 1 input_text host_fading = Returned host_fading
   \<and> reachable two_rooms
   \<and> rooms two_rooms =
       [(room_a, \<lparr>host = Some 0, clients = [1]\<rparr>), (room_b, \<lparr>host = Some 2, clients = [1]\<rparr>)]
   \<and> readyState (sockets two_rooms 0) = OPEN
   \<and> on_message parse_example room_b 1 input_text two_rooms =
       Returned (two_rooms\<lparr>calls := calls two_rooms @ [Send 2 (Raw input_text)]\<rparr>)"
  by (simp add: on_message_def input_def bound_room_def rooms_get_def parse_example_simps
      type_simps room_keys send_host_def send_def is_open_def lobby_room_def
      reachable_host_fading host_fading_rooms host_fading_sockets
      reachable_two_rooms two_rooms_rooms two_rooms_sockets)

section \<open>The list of players\<close>

text \<open>
  Claim C6, as amended. For a room of the table with a host and a list of N clients,
  \<open>broadcastPlayerList\<close> returns and changes nothing but the calls. It builds one
  payload \<open>{type: 'playerList', players}\<close>, where \<open>players\<close> has N + 1 entries: the entry
  of the host first, then one entry for each client in the order of the list, entry
  \<open>i\<close> labelled \<open>client-i\<close> and \<open>Cliente i\<close> from its position. It sends that payload to
  the host and to each entry of the list of clients, host first and clients in list
  order, but only to those that are open: the sends are under the test
  \<open>readyState === WebSocket.OPEN\<close>, so the claim as it is stated, for each of the N
  clients, fails.
\<close>

theorem playerList_broadcast:
  assumes "ToPropertyKey rid = Some k" and "map_of (rooms s) k = Some r" and "host r = Some h"
  shows "broadcastPlayerList rid s =
           Returned (s\<lparr>calls := calls s @ sends (playerList r) (filter (is_open s) (h # clients r))\<rparr>)
         \<and> playerList r = JSON_stringify (JObj [(''type'', JStr ''playerList''),
               (''players'', JArr (host_entry # map client_entry [0..<length (clients r)]))])
         \<and> length (players r) = length (clients r) + 1"
  using assms
  by (simp add: broadcastPlayerList_def rooms_get_def broadcast_eq host_list_def playerList_def players_def)

theorem playerList_broadcast_witness:
  "ToPropertyKey (Some (JStr room_a)) = Some room_a
   \<and> map_of (rooms lobby) room_a = Some lobby_room \<and> host lobby_room = Some 0
   \<and> broadcastPlayerList (Some (JStr room_a)) lobby =
         Returned (lobby\<lparr>calls := calls lobby @
           sends (playerList lobby_room) (filter (is_open lobby) (0 # clients lobby_room))\<rparr>)
   \<and> playerList lobby_room = JSON_stringify (JObj [(''type'', JStr ''playerList''),
         (''players'', JArr (host_entry # map client_entry [0..<length (clients lobby_room)]))])
   \<and> length (players lobby_room) = length (clients lobby_room) + 1"
proof -
  have h: "ToPropertyKey (Some (JStr room_a)) = Some room_a"
    "map_of (rooms lobby) room_a = Some lobby_room" "host lobby_room = Some 0"
    by (simp_all add: lobby_rooms lobby_room_def)
  from playerList_broadcast [where rid = "Some (JStr room_a)" and k = room_a and s = lobby
      and r = lobby_room and h = 0] h
  show ?thesis by simp
qed

text \<open>
  Connection 3 joins the example room as its third client while client 2 is closing.
  The list of players has four entries and goes to the host and to clients 1 and 3.
\<close>

theorem playerList_broadcast_counterexample:
  "reachable fading
   \<and> map_of (rooms fading) room_a = Some \<lparr>host = Some 0, clients = [1, 2]\<rparr>
   \<and> readyState (sockets fading 2) = CLOSING
   \<and> on_message parse_example room_b 3 join_a_text fading =
       Returned (fading\<lparr>rooms := [(room_a, \<lparr>host = Some 0, clients = [1, 2, 3]\<rparr>)],
         sockets := (sockets fading)
           (3 := \<lparr>roomId = Some (JStr room_a), isHost = False, readyState = OPEN\<rparr>),
         calls := calls fading @
           [Send 0 (playerList \<lparr>host = Some 0, clients = [1, 2, 3]\<rparr>),
            Send 1 (playerList \<lparr>host = Some 0, clients = [1, 2, 3]\<rparr>),
            Send 3 (playerList \<lparr>host = Some 0, clients = [1, 2, 3]\<rparr>)]\<rparr>)
   \<and> length (players \<lparr>host = Some 0, clients = [1, 2, 3]\<rparr>) = 4"
  by (simp add: reachable_fading on_message_def joinRoom_def rooms_get_def rooms_set_def
      bind_def broadcastPlayerList_def parse_example_simps type_simps fading_rooms
      fading_sockets lobby_room_def room_keys broadcast_eq host_list_def sends_def is_open_def
      players_def)

section \<open>Game state\<close>

text \<open>
  Claim C7, as amended. Let a message of type \<open>gameState\<close> come from a socket bound to a
  room of the table, marked as host or not. The handler returns and changes nothing but
  the calls: the parsed message, serialised again, is sent to the room's host and to
  every entry of its list of clients, as far as they are open, host first and clients
  in list order. The sender is not taken out: if it is open, it is sent its own
  message as often as it occurs in the room, as the host or in the list. A member that
  is not open is passed over by the test \<open>readyState === WebSocket.OPEN\<close>, so the
  claim as it is stated, for every member, fails.
\<close>

theorem gameState_broadcast:
  assumes "parse message = Some data"
    and "get_prop data ''type'' = Inr (Some (JStr ''gameState''))"
    and "roomId (sockets s ws) = Some (JStr rid)" and "rid \<noteq> []"
    and "map_of (rooms s) rid = Some r"
  shows "on_message parse newRoomId ws message s =
           Returned (s\<lparr>calls := calls s @
              sends (JSON_stringify data) (filter (is_open s) (host_list r @ clients r))\<rparr>)
         \<and> count_list (sends (JSON_stringify data) (filter (is_open s) (host_list r @ clients r)))
               (Send ws (JSON_stringify data)) =
             (if is_open s ws then member_count r ws else 0)"
  using assms
  by (simp add: on_message_def gameState_def bound_room_Own broadcastInRoom_def rooms_get_Own
      broadcast_eq count_sends count_filter count_members)

theorem gameState_broadcast_witness:
  "parse_example gameState_text = Some gameState_json
   \<and> get_prop gameState_json ''type'' = Inr (Some (JStr ''gameState''))
   \<and> roomId (sockets lobby 1) = Some (JStr room_a) \<and> room_a \<noteq> []
   \<and> map_of (rooms lobby) room_a = Some lobby_room
   \<and> on_message parse_example room_b 1 gameState_text lobby =
         Returned (lobby\<lparr>calls := calls lobby @
           sends (JSON_stringify gameState_json)
             (filter (is_open lobby) (host_list lobby_room @ clients lobby_room))\<rparr>)
   \<and> count_list (sends (JSON_stringify gameState_json)
           (filter (is_open lobby) (host_list lobby_room @ clients lobby_room)))
         (Send 1 (JSON_stringify gameState_json)) = 1"
proof -
  have h: "parse_example gameState_text = Some gameState_json"
    "get_prop gameState_json ''type'' = Inr (Some (JStr ''gameState''))"
    "roomId (sockets lobby 1) = Some (JStr room_a)" "room_a \<noteq> []"
    "map_of (rooms lobby) room_a = Some lobby_room"
    by (simp_all add: parse_example_simps type_simps lobby_rooms lobby_sockets room_keys)
  have m: "is_open lobby 1" "member_count lobby_room 1 = 1"
    by (simp_all add: is_open_def lobby_sockets member_count_def lobby_room_def)
  from gameState_broadcast [where parse = parse_example and message = gameState_text
      and data = gameState_json and s = lobby and ws = 1 and rid = room_a
      and r = lobby_room and newRoomId = room_b] h m
  show ?thesis by simp
qed

text \<open>
  Client 1 of the example room sends a game state while client 2 is closing: the host
  and client 1 itself are sent it, client 2 is not.
\<close>

theorem gameState_broadcast_counterexample:
  "reachable fading
   \<and> map_of (rooms fading) room_a = Some \<lparr>host = Some 0, clients = [1, 2]\<rparr>
   \<and> roomId (sockets fading 1) = Some (JStr room_a)
   \<and> readyState (sockets fading 2) = CLOSING
   \<and> on_message parse_example room_b 1 gameState_text fading =
       Returned (fading\<lparr>calls := calls fading @
         [Send 0 (JSON_stringify gameState_json), Send 1 (JSON_stringify gameState_json)]\<rparr>)"
  by (simp add: reachable_fading on_message_def gameState_def bound_room_def broadcastInRoom_def rooms_get_def
      parse_example_simps type_simps fading_rooms fading_sockets lobby_room_def room_keys
      broadcast_eq host_list_def sends_def is_open_def)

section \<open>A client leaves\<close>

text \<open>
  Claim C8, as amended. Let the socket that closes not be marked as host and be bound
  to a room of the table, that is, let its \<open>roomId\<close> be truthy and convert to the key of
  a room. The \<open>close\<close> handler returns. It takes that socket, every entry of it and
  nothing else, out of that room's list of clients; the room stays in the table under
  its key with the same host, every other room is as before, no room is added or
  removed, and no socket's binding changes. It calls \<open>broadcastPlayerList\<close> once, on the
  table so updated: one payload \<open>{type: 'playerList', players}\<close>, where \<open>players\<close> has
  the entry of the host, if the room has one, and then one entry for each client that
  is left, labelled by its position, is sent to the host and to the clients that are
  left, as far as they are open.

  The handler does this for the room the socket is bound to, no other, and there the
  claim as it is stated fails: a socket in the lists of two rooms stays in the list of
  the room it joined first, and that room is sent no list of players.
\<close>

theorem client_departure:
  assumes "\<not> isHost (sockets s ws)"
    and "truthy (roomId (sockets s ws))"
    and "ToPropertyKey (roomId (sockets s ws)) = Some k"
    and "map_of (rooms s) k = Some r"
  shows "let rest = filter (\<lambda>c. c \<noteq> ws) (clients r);
             hs = (case host r of None \<Rightarrow> [] | Some h \<Rightarrow> [h]);
             payload = JSON_stringify (JObj [(''type'', JStr ''playerList''),
               (''players'', JArr
                  (map (\<lambda>h. JObj [(''id'', JStr ''host''), (''name'', JStr ''Host'')]) hs
                   @ map (\<lambda>i. JObj [(''id'', JStr (''client-'' @ show_nat i)),
                                    (''name'', JStr (''Cliente '' @ show_nat i))])
                       [0..<length rest]))])
         in on_close ws s =
              broadcastPlayerList (roomId (sockets s ws))
                (s\<lparr>rooms := AList.update k (r\<lparr>clients := rest\<rparr>) (rooms s)\<rparr>)
          \<and> on_close ws s =
              Returned (s\<lparr>rooms := AList.update k (r\<lparr>clients := rest\<rparr>) (rooms s),
                calls := calls s @
                  map (\<lambda>c. Send c payload)
                    (filter (\<lambda>c. readyState (sockets s c) = OPEN) (hs @ rest))\<rparr>)
          \<and> ws \<notin> set rest
          \<and> length rest = length (clients r) - count_list (clients r) ws
          \<and> map_of (rooms (state_of (on_close ws s))) = (map_of (rooms s))(k \<mapsto> r\<lparr>clients := rest\<rparr>)
          \<and> map fst (rooms (state_of (on_close ws s))) = map fst (rooms s)"
proof -
  let ?rest = "filter (\<lambda>c. c \<noteq> ws) (clients r)"
  let ?r = "r\<lparr>clients := ?rest\<rparr>"
  let ?s1 = "s\<lparr>rooms := AList.update k ?r (rooms s)\<rparr>"
  from assms have a: "on_close ws s = broadcastPlayerList (roomId (sockets s ws)) ?s1"
    by (simp add: on_close_def bound_room_key rooms_set_def)
  have "map_of (rooms ?s1) k = Some ?r" by (simp add: update_conv')
  with assms(3) have b: "broadcastPlayerList (roomId (sockets s ws)) ?s1 =
      Returned (?s1\<lparr>calls := calls ?s1 @
        sends (playerList ?r) (filter (is_open ?s1) (host_list ?r @ clients ?r))\<rparr>)"
    by (simp add: broadcastPlayerList_def rooms_get_key broadcast_eq)
  have o: "is_open ?s1 = (\<lambda>c. readyState (sockets s c) = OPEN)"
    by (simp add: is_open_def fun_eq_iff)
  have h: "host_list ?r = (case host r of None \<Rightarrow> [] | Some h \<Rightarrow> [h])"
    by (simp add: host_list_def)
  from assms(4) have ks: "map fst (AList.update k ?r (rooms s)) = map fst (rooms s)"
    by (simp add: update_keys map_of_eq_None_iff [symmetric] del: map_of_eq_None_iff)
  have len': "length ?rest = length (clients r) - count_list (clients r) ws"
  proof -
    have "length (filter (\<lambda>c. c \<noteq> ws) xs) + count_list xs ws = length xs" for xs
      by (induction xs) simp_all
    from this [of "clients r"] show ?thesis by simp
  qed
  from a b o h ks len' show ?thesis
    by (simp add: Let_def update_conv' playerList_eq sends_def)
qed

theorem client_departure_witness:
  "\<not> isHost (sockets lobby 1) \<and> truthy (roomId (sockets lobby 1))
   \<and> ToPropertyKey (roomId (sockets lobby 1)) = Some room_a
   \<and> map_of (rooms lobby) room_a = Some lobby_room
   \<and> (let rest = filter (\<lambda>c. c \<noteq> 1) (clients lobby_room);
             hs = (case host lobby_room of None \<Rightarrow> [] | Some h \<Rightarrow> [h]);
             payload = JSON_stringify (JObj [(''type'', JStr ''playerList''),
               (''players'', JArr
                  (map (\<lambda>h. JObj [(''id'', JStr ''host''), (''name'', JStr ''Host'')]) hs
                   @ map (\<lambda>i. JObj [(''id'', JStr (''client-'' @ show_nat i)),
                                    (''name'', JStr (''Cliente '' @ show_nat i))])
                       [0..<length rest]))])
         in on_close 1 lobby =
              broadcastPlayerList (roomId (sockets lobby 1))
                (lobby\<lparr>rooms := AList.update room_a (lobby_room\<lparr>clients := rest\<rparr>) (rooms lobby)\<rparr>)
          \<and> on_close 1 lobby =
              Returned (lobby\<lparr>rooms := AList.update room_a (lobby_room\<lparr>clients := rest\<rparr>) (rooms lobby),
                calls := calls lobby @
                  map (\<lambda>c. Send c payload)
                    (filter (\<lambda>c. readyState (sockets lobby c) = OPEN) (hs @ rest))\<rparr>)
          \<and> 1 \<notin> set rest
          \<and> length rest = length (clients lobby_room) - count_list (clients lobby_room) 1
          \<and> map_of (rooms (state_of (on_close 1 lobby))) =
               (map_of (rooms lobby))(room_a \<mapsto> lobby_room\<lparr>clients := rest\<rparr>)
          \<and> map fst (rooms (state_of (on_close 1 lobby))) = map fst (rooms lobby))"
proof -
  have h: "\<not> isHost (sockets lobby 1)" "truthy (roomId (sockets lobby 1))"
    "ToPropertyKey (roomId (sockets lobby 1)) = Some room_a"
    "map_of (rooms lobby) room_a = Some lobby_room"
    by (simp_all add: lobby_rooms lobby_sockets room_keys)
  note t = client_departure [where s = lobby and ws = 1 and k = room_a and r = lobby_room, OF h]
  show ?thesis
    apply (intro conjI)
    apply (rule h(1))
    apply (rule h(2))
    apply (rule h(3))
    apply (rule h(4))
    apply (rule t)
    done
qed

text \<open>Client 1 of the example room leaves.\<close>

lemma lobby_without_client_1:
  "on_close 1 lobby =
     Returned (lobby\<lparr>rooms := [(room_a, \<lparr>host = Some 0, clients = [2]\<rparr>)],
                     calls := calls lobby @
                       [Send 0 (JSON_stringify (JObj [(''type'', JStr ''playerList''),
                          (''players'', JArr
                             [JObj [(''id'', JStr ''host''), (''name'', JStr ''Host'')],
                              JObj [(''id'', JStr ''client-0''), (''name'', JStr ''Cliente 0'')]])])),
                        Send 2 (JSON_stringify (JObj [(''type'', JStr ''playerList''),
                          (''players'', JArr
                             [JObj [(''id'', JStr ''host''), (''name'', JStr ''Host'')],
                              JObj [(''id'', JStr ''client-0''), (''name'', JStr ''Cliente 0'')]])]))]\<rparr>)"
  by (simp add: on_close_def bound_room_def rooms_get_def rooms_set_def broadcastPlayerList_def
      broadcast_eq lobby_rooms lobby_sockets lobby_room_def room_keys host_list_def sends_def
      is_open_def playerList_def players_def host_entry_def client_entry_def show_nat.simps
      digit_def)

text \<open>
  Connection 1, a client of the rooms of connections 0 and 2, leaves: it is taken out
  of the list of the second room, whose host is sent the new list of players; it stays
  in the list of the first room, whose host, open, is sent nothing.
\<close>

theorem client_departure_counterexample:
  "reachable two_rooms
   \<and> rooms two_rooms =
       [(room_a, \<lparr>host = Some 0, clients = [1]\<rparr>), (room_b, \<lparr>host = Some 2, clients = [1]\<rparr>)]
   \<and> \<not> isHost (sockets two_rooms 1)
   \<and> readyState (sockets two_rooms 0) = OPEN
   \<and> on_close 1 two_rooms =
       Returned (two_rooms\<lparr>rooms :=
           [(room_a, \<lparr>host = Some 0, clients = [1]\<rparr>), (room_b, \<lparr>host = Some 2, clients = []\<rparr>)],
         calls := calls two_rooms @
           [Send 2 (JSON_stringify (JObj [(''type'', JStr ''playerList''),
              (''players'', JArr [JObj [(''id'', JStr ''host''), (''name'', JStr ''Host'')]])]))]\<rparr>)"
  by (simp add: reachable_two_rooms two_rooms_rooms two_rooms_sockets on_close_def
      bound_room_def rooms_get_def rooms_set_def broadcastPlayerList_def broadcast_eq room_keys
      host_list_def sends_def is_open_def playerList_def players_def host_entry_def)

section \<open>Every room has its host\<close>

text \<open>
  Claim C9, as amended. In every reachable state, every room of the table has a host
  that is not null; so the list of players of the room starts with the entry of the
  host, and a forward to the host of the room has a host to go to and is sent if that
  host is open. No event sets the host of a room to null, and none replaces it, with
  one exception: a \<open>createRoom\<close> for which \<open>uuidv4\<close> returns the key of the room again
  puts a new room in its place, with the sender as host. When a socket that is marked
  as host and bound to the room closes, the room is deleted as a whole.

  What the claim says beyond this does not hold: a room is deleted when the socket
  bound to it closes, not whenever its host closes. A host that has sent \<open>createRoom\<close>
  or \<open>joinRoom\<close> again is bound to another room, and when it closes, the room it
  created first stays in the table.
\<close>

theorem host_never_null:
  assumes "reachable s" and "map_of (rooms s) k = Some r"
  shows "(\<exists>h. host r = Some h
            \<and> playerList r = JSON_stringify (JObj [(''type'', JStr ''playerList''),
                 (''players'', JArr (JObj [(''id'', JStr ''host''), (''name'', JStr ''Host'')]
                    # map client_entry [0..<length (clients r)]))])
            \<and> (\<forall>f. send_host r f s =
                  (if readyState (sockets s h) = OPEN then s\<lparr>calls := calls s @ [Send h f]\<rparr>
                   else s)))
         \<and> (\<forall>e r'. map_of (rooms (step e s)) k = Some r' \<longrightarrow>
               host r' = (case room_creation e of
                            None \<Rightarrow> host r
                          | Some (u, c) \<Rightarrow> if u = k then Some c else host r))
         \<and> (\<forall>ws. isHost (sockets s ws) \<and> truthy (roomId (sockets s ws))
                 \<and> ToPropertyKey (roomId (sockets s ws)) = Some k \<longrightarrow>
               rooms (step (Closed ws) s) = AList.delete k (rooms s)
               \<and> map_of (rooms (step (Closed ws) s)) k = None)"
proof -
  from assms(1) have "hosted s" by (rule hosted_reachable)
  with assms(2) obtain h where h: "host r = Some h" by (auto simp add: hosted_def)
  have a: "\<exists>h. host r = Some h
            \<and> playerList r = JSON_stringify (JObj [(''type'', JStr ''playerList''),
                 (''players'', JArr (JObj [(''id'', JStr ''host''), (''name'', JStr ''Host'')]
                    # map client_entry [0..<length (clients r)]))])
            \<and> (\<forall>f. send_host r f s =
                  (if readyState (sockets s h) = OPEN then s\<lparr>calls := calls s @ [Send h f]\<rparr>
                   else s))"
    using h playerList_hosted [OF h] send_host_hosted [OF h] by blast
  have b: "\<forall>e r'. map_of (rooms (step e s)) k = Some r' \<longrightarrow>
               host r' = (case room_creation e of
                            None \<Rightarrow> host r
                          | Some (u, c) \<Rightarrow> if u = k then Some c else host r)"
    using host_after_step [OF assms(2)] by blast
  have c: "\<forall>ws. isHost (sockets s ws) \<and> truthy (roomId (sockets s ws))
                 \<and> ToPropertyKey (roomId (sockets s ws)) = Some k \<longrightarrow>
               rooms (step (Closed ws) s) = AList.delete k (rooms s)
               \<and> map_of (rooms (step (Closed ws) s)) k = None"
  proof (intro allI impI)
    fix ws
    assume w: "isHost (sockets s ws) \<and> truthy (roomId (sockets s ws))
                 \<and> ToPropertyKey (roomId (sockets s ws)) = Some k"
    then have "rooms (step (Closed ws) s) = AList.delete k (rooms s)"
      using assms(2) by (intro rooms_host_close) simp_all
    then show "rooms (step (Closed ws) s) = AList.delete k (rooms s)
               \<and> map_of (rooms (step (Closed ws) s)) k = None"
      by (simp add: delete_conv')
  qed
  from a b c show ?thesis by blast
qed

theorem host_never_null_witness:
  "reachable lobby \<and> map_of (rooms lobby) room_a = Some lobby_room
   \<and> (\<exists>h. host lobby_room = Some h
          \<and> playerList lobby_room = JSON_stringify (JObj [(''type'', JStr ''playerList''),
               (''players'', JArr (JObj [(''id'', JStr ''host''), (''name'', JStr ''Host'')]
                  # map client_entry [0..<length (clients lobby_room)]))]))
   \<and> map_of (rooms (step (Closed 1) lobby)) room_a = Some \<lparr>host = Some 0, clients = [2]\<rparr>
   \<and> host \<lparr>host = Some 0, clients = [2]\<rparr> = host lobby_room
   \<and> isHost (sockets lobby 0) \<and> truthy (roomId (sockets lobby 0))
   \<and> ToPropertyKey (roomId (sockets lobby 0)) = Some room_a
   \<and> rooms (step (Closed 0) lobby) = AList.delete room_a (rooms lobby)
   \<and> map_of (rooms (step (Closed 0) lobby)) room_a = None"
proof -
  have h: "reachable lobby" "map_of (rooms lobby) room_a = Some lobby_room"
    by (simp_all add: reachable_lobby lobby_rooms)
  have w: "isHost (sockets lobby 0) \<and> truthy (roomId (sockets lobby 0))
    \<and> ToPropertyKey (roomId (sockets lobby 0)) = Some room_a"
    by (simp add: lobby_sockets room_keys)
  have l: "map_of (rooms (step (Closed 1) lobby)) room_a = Some \<lparr>host = Some 0, clients = [2]\<rparr>"
    by (simp add: on_close_def bound_room_def rooms_get_def rooms_set_def
        rooms_broadcastPlayerList lobby_rooms lobby_sockets lobby_room_def room_keys)
  have n: "room_creation (Closed 1) = None" by (simp add: room_creation_def)
  note t = host_never_null [OF h]
  from t [THEN conjunct1] have a: "\<exists>h. host lobby_room = Some h
          \<and> playerList lobby_room = JSON_stringify (JObj [(''type'', JStr ''playerList''),
               (''players'', JArr (JObj [(''id'', JStr ''host''), (''name'', JStr ''Host'')]
                  # map client_entry [0..<length (clients lobby_room)]))])"
    by (elim exE conjE) (rule exI, erule conjI, assumption)
  from t [THEN conjunct2, THEN conjunct1, rule_format, OF l] n
  have b: "host \<lparr>host = Some 0, clients = [2]\<rparr> = host lobby_room"
    by simp
  note c = t [THEN conjunct2, THEN conjunct2, rule_format, OF w]
  show ?thesis
    apply (intro conjI)
    apply (rule h(1))
    apply (rule h(2))
    apply (rule a)
    apply (rule l)
    apply (rule b)
    apply (rule w [THEN conjunct1])
    apply (rule w [THEN conjunct2, THEN conjunct1])
    apply (rule w [THEN conjunct2, THEN conjunct2])
    apply (rule c [THEN conjunct1])
    apply (rule c [THEN conjunct2])
    done
qed

text \<open>
  Connection 0 has created two rooms and leaves: the first room is still in the table,
  and its host is the connection that has left.
\<close>

theorem host_never_null_counterexample:
  "reachable second_room
   \<and> map_of (rooms second_room) room_a = Some \<lparr>host = Some 0, clients = [1]\<rparr>
   \<and> sockets second_room 0 = \<lparr>roomId = Some (JStr room_b), isHost = True, readyState = OPEN\<rparr>
   \<and> reachable (step (Closed 0) second_room)
   \<and> rooms (step (Closed 0) second_room) = [(room_a, \<lparr>host = Some 0, clients = [1]\<rparr>)]"
proof -
  have "reachable (step (Closed 0) second_room)"
    by (rule reachable_step) (rule reachable_second_room)
  moreover have "rooms (step (Closed 0) second_room) =
      [(room_a, \<lparr>host = Some 0, clients = [1]\<rparr>)]"
    by (simp add: second_room_rooms second_room_sockets on_close_def bound_room_def
        rooms_get_def room_keys rooms_delete_def)
  ultimately show ?thesis
    by (simp add: reachable_second_room second_room_rooms second_room_sockets)
qed

section \<open>Input from the host\<close>

text \<open>
  Claim C10, as amended. A message of type \<open>input\<close> from a socket that is marked as
  host, that is, whose \<open>isHost\<close> is true, is dropped: the handler returns with the state
  it started from, so nothing is sent and neither the table nor any binding changes.
  The mark is not the same as being the host of a room, and for that the claim as it is
  stated fails: \<open>joinRoom\<close> takes the mark from a socket that has created a room and is
  still the host of it, and the input of that socket is forwarded to the host of the
  room it has joined.
\<close>

theorem input_from_host_dropped:
  assumes "parse message = Some data"
    and "get_prop data ''type'' = Inr (Some (JStr ''input''))"
    and "isHost (sockets s ws)"
  shows "on_message parse newRoomId ws message s = Returned s"
  using assms by (simp add: on_message_def input_def)

theorem input_from_host_dropped_witness:
  "parse_example input_text = Some input_json
   \<and> get_prop input_json ''type'' = Inr (Some (JStr ''input''))
   \<and> isHost (sockets lobby 0)
   \<and> on_message parse_example room_b 0 input_text lobby = Returned lobby"
proof -
  have h: "parse_example input_text = Some input_json"
    "get_prop input_json ''type'' = Inr (Some (JStr ''input''))"
    "isHost (sockets lobby 0)"
    by (simp_all add: parse_example_simps type_simps lobby_sockets)
  from input_from_host_dropped [where parse = parse_example and message = input_text
      and data = input_json and s = lobby and ws = 0 and newRoomId = room_b] h
  show ?thesis by simp
qed

text \<open>
  Connection 0 has created a room and joined the room of connection 2. It is still the
  host of its own room, and its input goes to connection 2.
\<close>

theorem input_from_host_dropped_counterexample:
  "reachable host_joins
   \<and> rooms host_joins =
       [(room_a, \<lparr>host = Some 0, clients = []\<rparr>), (room_b, \<lparr>host = Some 2, clients = [0]\<rparr>)]
   \<and> sockets host_joins 0 = \<lparr>roomId = Some (JStr room_b), isHost = False, readyState = OPEN\<rparr>
   \<and> on_message parse_example room_b 0 input_text host_joins =
       Returned (host_joins\<lparr>calls := calls host_joins @ [Send 2 (Raw input_text)]\<rparr>)"
  by (simp add: on_message_def input_def bound_room_def rooms_get_def parse_example_simps
      type_simps room_keys send_host_def send_def is_open_def
      reachable_host_joins host_joins_rooms host_joins_sockets)

end
